theory Spec2Isabelle
  imports Main
begin

section \<open>The archive reader of ndk-link (ArchiveReader.cpp)\<close>

text \<open>
  A shallow embedding of \<^verbatim>\<open>src/tools/ndk-link/ArchiveReader.cpp\<close>. The mapped file
  is a list of bytes; a pointer into it is its offset from \<^verbatim>\<open>base\<close>. Every operation
  returns an outcome: a value, a failure (the C++ function returns \<^verbatim>\<open>0\<close>/\<^verbatim>\<open>false\<close> and
  sets the message), or an abort (a failed \<^verbatim>\<open>assert\<close>, a null \<^verbatim>\<open>mapfile\<close> dereferenced).
  The operations of \<^verbatim>\<open>Archive\<close> mutate the object also when they fail, so they
  return the archive next to the outcome.
\<close>

subsection \<open>Bytes and C library functions\<close>

definition NUL :: char where "NUL = CHR 0x00"
definition NL :: char where "NL = CHR 0x0A"
definition SLASH :: char where "SLASH = CHR ''/''"
definition BLANK :: char where "BLANK = CHR '' ''"

text \<open>\<^verbatim>\<open>isdigit\<close> and \<^verbatim>\<open>isspace\<close> of the C locale.\<close>

definition isdigit :: "char \<Rightarrow> bool" where
  "isdigit c = (48 \<le> (of_char c :: nat) \<and> (of_char c :: nat) \<le> 57)"

definition isspace :: "char \<Rightarrow> bool" where
  "isspace c = ((of_char c :: nat) = 32 \<or> (9 \<le> (of_char c :: nat) \<and> (of_char c :: nat) \<le> 13))"

definition digit_val :: "char \<Rightarrow> int" where
  "digit_val c = int (of_char c) - 48"

text \<open>The digits loop of \<^verbatim>\<open>atoi\<close>: it stops at the first byte that is not a digit.\<close>

fun atoi_digits :: "int \<Rightarrow> string \<Rightarrow> int" where
  "atoi_digits acc [] = acc"
| "atoi_digits acc (c # cs) =
     (if isdigit c then atoi_digits (10 * acc + digit_val c) cs else acc)"

text \<open>
  The conversions between the integer types of the source: a value stored in an
  \<^verbatim>\<open>int\<close> or in an \<^verbatim>\<open>unsigned\<close> of 32 bits wraps around, and \<^verbatim>\<open>strtol\<close> stops at
  the ends of a \<^verbatim>\<open>long\<close> of 64 bits.
\<close>

definition to_int32 :: "int \<Rightarrow> int" where
  "to_int32 v = (v + 2 ^ 31) mod 2 ^ 32 - 2 ^ 31"

definition to_uint32 :: "int \<Rightarrow> nat" where
  "to_uint32 v = nat (v mod 2 ^ 32)"

definition clamp_long :: "int \<Rightarrow> int" where
  "clamp_long v = max (- (2 ^ 63)) (min (2 ^ 63 - 1) v)"

text \<open>
  \<^verbatim>\<open>strtol(p, 0, 10)\<close>, given the bytes from \<^verbatim>\<open>p\<close> to the end of the mapped range:
  white space is skipped, one sign is read, then the digits. The header fields are not
  NUL terminated, so the source reads on into the next field when a field is all
  digits; the model does the same.
\<close>

definition strtol :: "string \<Rightarrow> int" where
  "strtol s =
     clamp_long
       (case dropWhile isspace s of
          [] \<Rightarrow> 0
        | c # cs \<Rightarrow>
            if c = CHR ''-'' then - atoi_digits 0 cs
            else if c = CHR ''+'' then atoi_digits 0 cs
            else atoi_digits 0 (c # cs))"

text \<open>
  \<^verbatim>\<open>atoi(p)\<close> is \<^verbatim>\<open>(int) strtol(p, 0, 10)\<close>. The C standard leaves a value that does
  not fit the \<^verbatim>\<open>int\<close> undefined; the model follows the C library of a host with a
  \<^verbatim>\<open>long\<close> of 64 bits, where the value wraps around: 4294967297 reads as 1 and
  2147483648 as a negative number.
\<close>

definition atoi :: "string \<Rightarrow> int" where
  "atoi s = to_int32 (strtol s)"

text \<open>\<^verbatim>\<open>StringRef(p, n)\<close>, \<^verbatim>\<open>std::string::assign(p, n)\<close>: the \<open>n\<close> bytes at offset \<open>p\<close>.\<close>

definition bytes_at :: "string \<Rightarrow> nat \<Rightarrow> nat \<Rightarrow> string" where
  "bytes_at mem p n = take n (drop p mem)"

subsection \<open>ArchiveInternals.h: the header layout and the magic strings\<close>

text \<open>
  Modelled from the spec: \<^verbatim>\<open>ArchiveInternals.h\<close> is not among the sources. The spec
  gives the fields of the fixed header (name of 16 bytes, date, uid, gid, octal mode,
  decimal size, a terminator of 2 bytes) and a header of 60 bytes (its example 3 puts
  the first member at 8 + 60); the widths of the fields and the magic strings are
  those of the ar format.
\<close>

definition sizeof_ArchiveMemberHeader :: nat where "sizeof_ArchiveMemberHeader = 60"
definition off_date :: nat where "off_date = 16"
definition off_uid :: nat where "off_uid = 28"
definition off_gid :: nat where "off_gid = 34"
definition off_size :: nat where "off_size = 48"
definition off_fmag :: nat where "off_fmag = 58"

definition ARFILE_MAGIC :: string where
  "ARFILE_MAGIC = ''!<arch>'' @ [NL]"
definition ARFILE_MEMBER_MAGIC :: string where
  "ARFILE_MEMBER_MAGIC = [CHR 0x60, NL]"
definition ARFILE_STRTAB_NAME :: string where
  "ARFILE_STRTAB_NAME = ''//              ''"
definition ARFILE_SVR4_SYMTAB_NAME :: string where
  "ARFILE_SVR4_SYMTAB_NAME = ''/               ''"
definition ARFILE_BSD4_SYMTAB_NAME :: string where
  "ARFILE_BSD4_SYMTAB_NAME = ''__.SYMDEF SORTED''"

subsection \<open>Archive.h: members, modules, the archive\<close>

datatype flag =
  HasLongFilenameFlag | StringTableFlag | SVR4SymbolTableFlag | BSD4SymbolTableFlag | BitcodeFlag

text \<open>
  An \<^verbatim>\<open>ArchiveMember\<close>. \<open>data\<close> is the offset of the payload view; \<open>Size\<close> is an
  integer because the source stores \<^verbatim>\<open>MemberSize - len\<close>, which is negative when an
  inline name is longer than the size field says. Added to a cursor it moves the
  cursor back, as the source's pointer arithmetic does; as the length of a view it is
  out of range in the source, and the model's view is then empty. \<^verbatim>\<open>Mode\<close> (read
  by \<^verbatim>\<open>sscanf\<close>) and \<^verbatim>\<open>parent\<close> are read by no operation of this file and are
  left out.
\<close>

record ArchiveMember =
  path :: string
  Size :: int
  ModTime :: int
  User :: int
  Group :: int
  flags :: "flag set"
  data :: nat

definition isBitcode :: "ArchiveMember \<Rightarrow> bool" where
  "isBitcode m = (BitcodeFlag \<in> flags m)"
definition isStringTable :: "ArchiveMember \<Rightarrow> bool" where
  "isStringTable m = (StringTableFlag \<in> flags m)"
definition isSVR4SymbolTable :: "ArchiveMember \<Rightarrow> bool" where
  "isSVR4SymbolTable m = (SVR4SymbolTableFlag \<in> flags m)"
definition isBSD4SymbolTable :: "ArchiveMember \<Rightarrow> bool" where
  "isBSD4SymbolTable m = (BSD4SymbolTableFlag \<in> flags m)"

text \<open>
  A \<^verbatim>\<open>Module*\<close>: modules are compared by address only (\<^verbatim>\<open>SmallPtrSet<Module*>\<close>), so
  a module is the number of its allocation, with the buffer it was read from.
\<close>

record Module =
  ident :: nat
  contents :: string

datatype error =
  UnexpectedEndOfFile
| InvalidMemberLength
| InvalidFileMemberSignature
| InvalidLongFilename
| InvalidStringTableName
| InvalidSVR4SymbolTableName
| MissingNameTerminator
| NameIndexBeyondStringTable
| InvalidArchiveSignature
| EmptyArchive
| CantParseBitcodeMember string string
| ReaderError string

datatype 'a outcome = Ok 'a | Fail error | Abort

text \<open>
  The collaborators, which are not part of this file: \<^verbatim>\<open>sys::fs::identify_magic\<close>
  compared with \<^verbatim>\<open>file_magic::bitcode\<close>, \<^verbatim>\<open>GetBitcodeSymbols\<close> (the symbol names, or a
  message), \<^verbatim>\<open>getLazyBitcodeModule\<close> (a message when it fails) and \<^verbatim>\<open>parseBitcodeFile\<close>
  (whether it succeeds). The readers take the buffer and its name.
\<close>

record collab =
  identify_bitcode :: "string \<Rightarrow> bool"
  GetBitcodeSymbols :: "string \<Rightarrow> string \<Rightarrow> string + string list"
  getLazyBitcodeModule :: "string \<Rightarrow> string \<Rightarrow> string option"
  parseBitcodeFile :: "string \<Rightarrow> string \<Rightarrow> bool"

text \<open>
  The \<^verbatim>\<open>Archive\<close>: \<open>mapfile\<close> holds the mapped bytes (\<open>None\<close> is the null pointer),
  \<open>base\<close> the address of the first byte. \<open>symTab\<close> is a \<^verbatim>\<open>std::map<std::string,
  unsigned>\<close> and \<open>modules\<close> a \<^verbatim>\<open>std::map<unsigned, std::pair<Module, ArchiveMember*>>\<close>,
  as association lists with one pair per key; offsets are not reduced to 32 bits.
  \<open>allocated\<close> counts the modules the readers have created: it gives the next
  module its identity.

  Modelled from the spec: \<^verbatim>\<open>Archive.h\<close>, which declares the two map types, is not
  among the sources. The spec has a symbol table mapping a name to a relative offset
  and a module cache mapping an offset to a module and its member; the source uses
  them through \<^verbatim>\<open>find\<close>, \<^verbatim>\<open>insert\<close>, \<^verbatim>\<open>empty\<close>, \<^verbatim>\<open>size\<close> and \<^verbatim>\<open>clear\<close>.
\<close>

record Archive =
  archPath :: string
  mapfile :: "string option"
  base :: nat
  members :: "ArchiveMember list"
  symTab :: "(string \<times> nat) list"
  modules :: "(nat \<times> Module \<times> ArchiveMember) list"
  strtab :: string
  firstFileOffset :: nat
  allocated :: nat

text \<open>\<^verbatim>\<open>std::map::insert\<close>: a pair whose key is in the map already is not inserted.\<close>

definition map_insert :: "('k \<times> 'v) list \<Rightarrow> 'k \<Rightarrow> 'v \<Rightarrow> ('k \<times> 'v) list" where
  "map_insert m k v = (case map_of m k of None \<Rightarrow> m @ [(k, v)] | Some _ \<Rightarrow> m)"

definition FullMemberName :: "Archive \<Rightarrow> ArchiveMember \<Rightarrow> string" where
  "FullMemberName a m = archPath a @ ''('' @ path m @ '')''"

subsection \<open>Archive::parseMemberHeader\<close>

text \<open>
  The loop over the string table (lines 108 to 125): \<open>l\<close> is \<^verbatim>\<open>*last_p\<close>, \<open>n\<close> is
  \<^verbatim>\<open>last_p - namep\<close>, \<open>k\<close> is \<^verbatim>\<open>p - namep\<close>, the list holds the bytes from \<^verbatim>\<open>p\<close> to
  \<^verbatim>\<open>endp\<close>. The result is the length of the name, or \<open>None\<close> when \<^verbatim>\<open>p\<close> reaches
  \<^verbatim>\<open>endp\<close>.
\<close>

fun strtab_scan :: "char \<Rightarrow> nat \<Rightarrow> nat \<Rightarrow> string \<Rightarrow> nat option" where
  "strtab_scan l n k [] = None"
| "strtab_scan l n k (c # cs) =
     (if c = NL \<and> l = SLASH then Some n else strtab_scan c k (Suc k) cs)"

text \<open>
  The switch on \<^verbatim>\<open>Hdr->name[0]\<close> (lines 68 to 148). \<open>At\<close> is the cursor after the
  fixed header. The result is the path name, the cursor, the member size and the flags.
  \<open>len\<close> and \<open>index\<close> are \<^verbatim>\<open>unsigned\<close>, \<open>MemberSize\<close> is an \<^verbatim>\<open>int\<close>, so
  \<^verbatim>\<open>MemberSize -= len\<close> is computed in 32 bits. A \<^verbatim>\<open>memchr\<close> over \<open>len\<close> bytes sees the
  bytes that lie in the mapped range.
\<close>

definition decodeName ::
  "string \<Rightarrow> string \<Rightarrow> nat \<Rightarrow> nat \<Rightarrow> int \<Rightarrow> (string \<times> nat \<times> int \<times> flag set) outcome" where
  "decodeName mem stab Hdr At MemberSize =
     (let name = bytes_at mem Hdr 16 in
      if name ! 0 = CHR ''#'' then
        (if name ! 1 = CHR ''1'' \<and> name ! 2 = SLASH then
           (if isdigit (name ! 3) then
              (let len = to_uint32 (atoi (drop (Hdr + 3) mem));
                   pathname = takeWhile (\<lambda>c. c \<noteq> NUL) (bytes_at mem At len)
               in Ok (pathname, At + len, to_int32 (MemberSize - int len),
                      {HasLongFilenameFlag}))
            else Fail InvalidLongFilename)
         else Ok ([], At, MemberSize, {}))
      else if name ! 0 = SLASH then
        (if name ! 1 = SLASH then
           (if name = ARFILE_STRTAB_NAME
            then Ok (ARFILE_STRTAB_NAME, At, MemberSize, {StringTableFlag})
            else Fail InvalidStringTableName)
         else if name ! 1 = BLANK then
           (if name = ARFILE_SVR4_SYMTAB_NAME
            then Ok (ARFILE_SVR4_SYMTAB_NAME, At, MemberSize, {SVR4SymbolTableFlag})
            else Fail InvalidSVR4SymbolTableName)
         else if isdigit (name ! 1) then
           (let index = to_uint32 (atoi (drop (Hdr + 1) mem)) in
            if index < length stab then
              (case drop index stab of
                 [] \<Rightarrow> Fail MissingNameTerminator
               | c # cs \<Rightarrow>
                   (case strtab_scan c 0 0 (c # cs) of
                      None \<Rightarrow> Fail MissingNameTerminator
                    | Some n \<Rightarrow>
                        Ok (take n (c # cs), At, MemberSize, {HasLongFilenameFlag})))
            else Fail NameIndexBeyondStringTable)
         else Ok ([], At, MemberSize, {}))
      else if name ! 0 = CHR ''_'' \<and> name ! 1 = CHR ''_'' \<and> name = ARFILE_BSD4_SYMTAB_NAME then
        Ok (ARFILE_BSD4_SYMTAB_NAME, At, MemberSize, {BSD4SymbolTableFlag})
      else Ok (takeWhile (\<lambda>c. c \<noteq> SLASH) name, At, MemberSize, {}))"

text \<open>
  \<^verbatim>\<open>parseMemberHeader(At, End, error)\<close> on the mapped bytes \<open>mem\<close> with the archive's
  string table \<open>stab\<close>: the member and the new cursor. The \<^verbatim>\<open>assert\<close> on the member
  size aborts. The magic test is handed the bytes of the view of 4 bytes that lie in
  the mapped range.
\<close>

definition parseMemberHeader ::
  "collab \<Rightarrow> string \<Rightarrow> string \<Rightarrow> nat \<Rightarrow> nat \<Rightarrow> (ArchiveMember \<times> nat) outcome" where
  "parseMemberHeader C mem stab At End =
     (if At + sizeof_ArchiveMemberHeader \<ge> End then Fail UnexpectedEndOfFile
      else
        (let Hdr = At;
             At1 = At + sizeof_ArchiveMemberHeader;
             MemberSize = atoi (drop (Hdr + off_size) mem)
         in
           if MemberSize < 0 then Abort
           else if int At1 + MemberSize > int End then Fail InvalidMemberLength
           else if bytes_at mem (Hdr + off_fmag) 2 \<noteq> ARFILE_MEMBER_MAGIC
             then Fail InvalidFileMemberSignature
           else
             (case decodeName mem stab Hdr At1 MemberSize of
                Abort \<Rightarrow> Abort
              | Fail e \<Rightarrow> Fail e
              | Ok (pathname, At2, MemberSize2, fl) \<Rightarrow>
                  Ok (\<lparr> path = pathname,
                        Size = MemberSize2,
                        ModTime = atoi (drop (Hdr + off_date) mem),
                        User = atoi (drop (Hdr + off_uid) mem),
                        Group = atoi (drop (Hdr + off_gid) mem),
                        flags = (if identify_bitcode C (bytes_at mem At2 4)
                                 then insert BitcodeFlag fl else fl - {BitcodeFlag}),
                        data = At2 \<rparr>, At2))))"

text \<open>
  What the termination of the scans rests on: the size field is not negative when the
  decoder returns, and the cursor and the member size together do not fall behind the
  end of the fixed header plus the size field. They are equal to it unless an inline
  name is more than \<open>2 ^ 31\<close> bytes longer than the size field says.
\<close>

lemma to_int32_range: "- (2 ^ 31) \<le> to_int32 v \<and> to_int32 v < 2 ^ 31"
proof -
  have "0 \<le> (v + 2 ^ 31) mod 2 ^ 32" "(v + 2 ^ 31) mod 2 ^ 32 < (2 ^ 32 :: int)"
    by simp_all
  then show ?thesis by (simp add: to_int32_def)
qed

lemma to_int32_id: "- (2 ^ 31) \<le> v \<Longrightarrow> v < 2 ^ 31 \<Longrightarrow> to_int32 v = v"
  by (simp add: to_int32_def)

lemma to_int32_ge: "v < 2 ^ 31 \<Longrightarrow> v \<le> to_int32 v"
proof -
  assume v: "v < 2 ^ 31"
  have "0 \<le> (v + 2 ^ 31) mod 2 ^ 32"
    by simp
  moreover have "(v + 2 ^ 31) mod 2 ^ 32 = v + 2 ^ 31" if "0 \<le> v + 2 ^ 31"
    using that v by simp
  ultimately show ?thesis
    by (cases "0 \<le> v + 2 ^ 31") (simp_all add: to_int32_def)
qed

lemma to_uint32_id: "0 \<le> v \<Longrightarrow> v < 2 ^ 32 \<Longrightarrow> to_uint32 v = nat v"
  by (simp add: to_uint32_def)

lemma to_uint32_to_int32: "to_uint32 (to_int32 v) = to_uint32 v"
proof -
  have "((v + 2 ^ 31) mod 2 ^ 32 - 2 ^ 31) mod 2 ^ 32 = (v + 2 ^ 31 - 2 ^ 31) mod (2 ^ 32 :: int)"
    by (rule mod_diff_left_eq)
  then show ?thesis by (simp add: to_uint32_def to_int32_def)
qed

lemma atoi_range: "- (2 ^ 31) \<le> atoi s \<and> atoi s < 2 ^ 31"
  unfolding atoi_def by (rule to_int32_range)

lemma decodeName_sum:
  assumes "decodeName mem stab Hdr At MemberSize = Ok (p, At2, MemberSize2, fl)"
    and "MemberSize < 2 ^ 31"
  shows "int At + MemberSize \<le> int At2 + MemberSize2"
proof -
  have "int At + MemberSize \<le> int (At + n) + to_int32 (MemberSize - int n)" for n
  proof -
    have "MemberSize - int n < 2 ^ 31"
      using assms(2) by linarith
    then have "MemberSize - int n \<le> to_int32 (MemberSize - int n)"
      by (rule to_int32_ge)
    then show ?thesis by simp
  qed
  with assms(1) show ?thesis
    by (auto simp: decodeName_def Let_def split: if_splits list.splits option.splits)
qed

lemma decodeName_sum_eq:
  assumes "decodeName mem stab Hdr At MemberSize = Ok (p, At2, MemberSize2, fl)"
    and "0 \<le> MemberSize" and "MemberSize < 2 ^ 31"
    and "int At2 \<le> int At + MemberSize + 2 ^ 31"
  shows "int At2 + MemberSize2 = int At + MemberSize"
proof -
  have "to_int32 (MemberSize - int n) = MemberSize - int n"
    if "int (At + n) \<le> int At + MemberSize + 2 ^ 31" for n
  proof (rule to_int32_id)
    show "- (2 ^ 31) \<le> MemberSize - int n" using that by simp
    show "MemberSize - int n < 2 ^ 31" using assms(3) by linarith
  qed
  with assms(1,4) show ?thesis
    by (auto simp: decodeName_def Let_def split: if_splits list.splits option.splits)
qed

lemma parseMemberHeader_sum:
  assumes "parseMemberHeader C mem stab At End = Ok (m, P)"
  shows "int At + 60 + atoi (drop (At + off_size) mem) \<le> int P + Size m"
    and "0 \<le> atoi (drop (At + off_size) mem)"
    and "int At + 60 + atoi (drop (At + off_size) mem) \<le> int End"
    and "data m = P"
  using assms atoi_range [of "drop (At + off_size) mem"]
    decodeName_sum [of mem stab At "At + 60" "atoi (drop (At + off_size) mem)"]
  by (auto simp: parseMemberHeader_def sizeof_ArchiveMemberHeader_def Let_def
      split: if_splits outcome.splits)

lemma parseMemberHeader_sum_eq:
  assumes "parseMemberHeader C mem stab At End = Ok (m, P)"
    and "int P \<le> int At + 60 + atoi (drop (At + off_size) mem) + 2 ^ 31"
  shows "int P + Size m = int At + 60 + atoi (drop (At + off_size) mem)"
  using assms atoi_range [of "drop (At + off_size) mem"]
    decodeName_sum_eq [of mem stab At "At + 60" "atoi (drop (At + off_size) mem)"]
  by (auto simp: parseMemberHeader_def sizeof_ArchiveMemberHeader_def Let_def
      split: if_splits outcome.splits)

subsection \<open>The step to the next header\<close>

text \<open>
  \<^verbatim>\<open>At += mbr->getSize(); if ((intptr_t(At) & 1) == 1) At++;\<close> as every scan of the
  file has it. The address of offset \<open>At\<close> is \<open>base + At\<close>.
\<close>

definition skipPayload :: "Archive \<Rightarrow> nat \<Rightarrow> ArchiveMember \<Rightarrow> nat" where
  "skipPayload a At mbr =
     (let At' = nat (int At + Size mbr) in if odd (base a + At') then Suc At' else At')"

lemma skipPayload_progress:
  assumes "parseMemberHeader C mem stab At End = Ok (m, P)"
  shows "At + 60 \<le> skipPayload a P m"
proof -
  have "At + 60 \<le> nat (int P + Size m)"
    using parseMemberHeader_sum(1,2) [OF assms] by linarith
  then show ?thesis
    by (simp add: skipPayload_def Let_def)
qed

lemma skipPayload_measure:
  assumes "parseMemberHeader C mem stab At End = Ok (m, P)" and "At < n"
  shows "n - skipPayload a P m < n - At"
  using skipPayload_progress [OF assms(1), of a] assms(2) by linarith

lemma skipPayload_update [simp]:
  "skipPayload (a\<lparr>strtab := s\<rparr>) = skipPayload a"
  "skipPayload (a\<lparr>members := ms\<rparr>) = skipPayload a"
  "skipPayload (a\<lparr>firstFileOffset := f\<rparr>) = skipPayload a"
  "skipPayload (a\<lparr>symTab := st\<rparr>) = skipPayload a"
  "skipPayload (a\<lparr>modules := md\<rparr>) = skipPayload a"
  "skipPayload (a\<lparr>allocated := n\<rparr>) = skipPayload a"
  by (simp_all add: skipPayload_def fun_eq_iff)

subsection \<open>Archive::checkSignature and Archive::loadArchive\<close>

definition checkSignature :: "string \<Rightarrow> bool" where
  "checkSignature mem = (8 \<le> length mem \<and> take 8 mem = ARFILE_MAGIC)"

text \<open>The loop of \<^verbatim>\<open>loadArchive\<close> (lines 205 to 238) over the mapped bytes \<open>mem\<close>.\<close>

function loadArchive_loop ::
  "collab \<Rightarrow> string \<Rightarrow> Archive \<Rightarrow> nat \<Rightarrow> bool \<Rightarrow> unit outcome \<times> Archive" where
  "loadArchive_loop C mem a At foundFirstFile =
     (if At < length mem then
        (case parseMemberHeader C mem (strtab a) At (length mem) of
           Abort \<Rightarrow> (Abort, a)
         | Fail e \<Rightarrow> (Fail e, a)
         | Ok (mbr, At1) \<Rightarrow>
             if isSVR4SymbolTable mbr \<or> isBSD4SymbolTable mbr then
               loadArchive_loop C mem a (skipPayload a At1 mbr) foundFirstFile
             else if isStringTable mbr then
               loadArchive_loop C mem (a\<lparr>strtab := bytes_at mem At1 (nat (Size mbr))\<rparr>)
                 (skipPayload a At1 mbr) foundFirstFile
             else
               loadArchive_loop C mem
                 (a\<lparr>firstFileOffset := (if foundFirstFile then firstFileOffset a else At),
                    members := members a @ [mbr]\<rparr>)
                 (skipPayload a At1 mbr) True)
      else (Ok (), a))"
  by pat_completeness auto
termination
proof (relation "measure (\<lambda>(C, mem, a, At, f). length mem - At)")
qed (auto intro: skipPayload_measure)

declare loadArchive_loop.simps [simp del]

text \<open>
  \<^verbatim>\<open>loadArchive\<close>: the member list and the symbol table are cleared (lines 194 and
  195), the string table and \<^verbatim>\<open>firstFileOffset\<close> are not.
\<close>

definition loadArchive :: "collab \<Rightarrow> Archive \<Rightarrow> unit outcome \<times> Archive" where
  "loadArchive C a =
     (let a1 = a\<lparr>members := [], symTab := []\<rparr> in
      case mapfile a1 of
        None \<Rightarrow> (Abort, a1)
      | Some mem \<Rightarrow>
          if checkSignature mem then loadArchive_loop C mem a1 8 False
          else (Fail InvalidArchiveSignature, a1))"

subsection \<open>Archive::loadSymbolTable\<close>

definition loadSymbolTable :: "collab \<Rightarrow> Archive \<Rightarrow> unit outcome \<times> Archive" where
  "loadSymbolTable C a =
     (let a1 = a\<lparr>members := []\<rparr> in
      case mapfile a1 of
        None \<Rightarrow> (Abort, a1)
      | Some mem \<Rightarrow>
          if checkSignature mem then
            (let End = length mem; FirstFile = 8 in
             case parseMemberHeader C mem (strtab a1) 8 End of
               Abort \<Rightarrow> (Abort, a1)
             | Fail e \<Rightarrow> (Fail e, a1)
             | Ok (mbr, At1) \<Rightarrow>
                 (case (if isSVR4SymbolTable mbr \<or> isBSD4SymbolTable mbr then
                          (let At2 = skipPayload a1 At1 mbr in
                           case parseMemberHeader C mem (strtab a1) At2 End of
                             Abort \<Rightarrow> Abort
                           | Fail e \<Rightarrow> Fail e
                           | Ok (mbr2, At3) \<Rightarrow> Ok (mbr2, At3, At2))
                        else Ok (mbr, At1, FirstFile)) of
                    Abort \<Rightarrow> (Abort, a1)
                  | Fail e \<Rightarrow> (Fail e, a1)
                  | Ok (mbr2, At3, FirstFile2) \<Rightarrow>
                      if isStringTable mbr2 then
                        (let a2 = a1\<lparr>strtab := bytes_at mem (data mbr2) (nat (Size mbr2))\<rparr>;
                             At4 = skipPayload a2 At3 mbr2 in
                         case parseMemberHeader C mem (strtab a2) At4 End of
                           Abort \<Rightarrow> (Abort, a2)
                         | Fail e \<Rightarrow> (Fail e, a2)
                         | Ok (mbr3, At5) \<Rightarrow>
                             (Ok (), a2\<lparr>members := members a2 @ [mbr3],
                                         firstFileOffset := At4\<rparr>))
                      else
                        (Ok (), a1\<lparr>members := members a1 @ [mbr2],
                                    firstFileOffset := FirstFile2\<rparr>)))
          else (Fail InvalidArchiveSignature, a1))"

subsection \<open>Archive::findModuleDefiningSymbol\<close>

text \<open>
  The result is the \<^verbatim>\<open>Module*\<close>: \<open>Ok None\<close> is the null pointer returned with no
  message; a failure is the null pointer with the message set. The null pointer is
  returned for a symbol that is not in the table, and also after a module was read
  and cached: line 392 moves the \<^verbatim>\<open>unique_ptr\<close> out of \<^verbatim>\<open>Result\<close> into the cache, and
  line 394 returns \<^verbatim>\<open>Result.get().get()\<close>, the pointer of the \<^verbatim>\<open>unique_ptr\<close> it was
  moved out of.
\<close>

definition findModuleDefiningSymbol ::
  "collab \<Rightarrow> Archive \<Rightarrow> string \<Rightarrow> Module option outcome \<times> Archive" where
  "findModuleDefiningSymbol C a symbol =
     (case map_of (symTab a) symbol of
        None \<Rightarrow> (Ok None, a)
      | Some rel \<Rightarrow>
          (let fileOffset = rel + firstFileOffset a in
           case map_of (modules a) fileOffset of
             Some (M, mbr) \<Rightarrow> (Ok (Some M), a)
           | None \<Rightarrow>
               (case mapfile a of
                  None \<Rightarrow> (Abort, a)
                | Some mem \<Rightarrow>
                    (case parseMemberHeader C mem (strtab a) fileOffset (length mem) of
                       Abort \<Rightarrow> (Abort, a)
                     | Fail e \<Rightarrow> (Fail e, a)
                     | Ok (mbr, modptr) \<Rightarrow>
                         (let Buffer = bytes_at mem (data mbr) (nat (Size mbr)) in
                          case getLazyBitcodeModule C Buffer (FullMemberName a mbr) of
                            Some msg \<Rightarrow> (Fail (ReaderError msg), a)
                          | None \<Rightarrow>
                              (let M = \<lparr> ident = allocated a, contents = Buffer \<rparr> in
                               (Ok None,
                                a\<lparr>modules := map_insert (modules a) fileOffset (M, mbr),
                                  allocated := Suc (allocated a)\<rparr>)))))))"

subsection \<open>Archive::findModulesDefiningSymbols\<close>

text \<open>The loop that inserts the symbols of one member (lines 440 to 443).\<close>

fun insertSymbols :: "(string \<times> nat) list \<Rightarrow> string list \<Rightarrow> nat \<Rightarrow> (string \<times> nat) list" where
  "insertSymbols st [] offset = st"
| "insertSymbols st (I # Is) offset = insertSymbols (map_insert st I offset) Is offset"

text \<open>
  The loop that builds the symbol table (lines 419 to 460). \<open>At\<close> is the offset
  from \<^verbatim>\<open>base\<close>, so \<^verbatim>\<open>At - base - firstFileOffset\<close> is \<open>At - firstFileOffset a\<close>.
\<close>

function buildSymTab_loop ::
  "collab \<Rightarrow> string \<Rightarrow> Archive \<Rightarrow> nat \<Rightarrow> unit outcome \<times> Archive" where
  "buildSymTab_loop C mem a At =
     (if At < length mem then
        (let offset = At - firstFileOffset a in
         case parseMemberHeader C mem (strtab a) At (length mem) of
           Abort \<Rightarrow> (Abort, a)
         | Fail e \<Rightarrow> (Fail e, a)
         | Ok (mbr, At1) \<Rightarrow>
             if isBitcode mbr then
               (case GetBitcodeSymbols C (bytes_at mem At1 (nat (Size mbr))) (FullMemberName a mbr) of
                  Inl msg \<Rightarrow> (Fail (CantParseBitcodeMember (path mbr) msg), a)
                | Inr symbols \<Rightarrow>
                    (let M = \<lparr> ident = allocated a,
                               contents = bytes_at mem At1 (nat (Size mbr)) \<rparr> in
                     buildSymTab_loop C mem
                       (a\<lparr>symTab := insertSymbols (symTab a) symbols offset,
                          modules := map_insert (modules a) offset (M, mbr),
                          allocated := Suc (allocated a)\<rparr>)
                       (skipPayload a At1 mbr)))
             else buildSymTab_loop C mem a (skipPayload a At1 mbr))
      else (Ok (), a))"
  by pat_completeness auto
termination
proof (relation "measure (\<lambda>(C, mem, a, At). length mem - At)")
qed (auto intro: skipPayload_measure)

declare buildSymTab_loop.simps [simp del]

text \<open>
  The loop over the requested symbols (lines 466 to 486). The \<^verbatim>\<open>std::set\<close> is the list
  of its elements in the order of iteration; \<open>kept\<close> collects the names that are not
  erased, \<open>Added\<close> the addresses of the modules put into \<open>result\<close>. When
  \<^verbatim>\<open>findModuleDefiningSymbol\<close> fails the loop goes on as for a symbol that was not
  found; the message it left in \<^verbatim>\<open>*error\<close> is not part of the model's result.
\<close>

fun resolve_loop ::
  "collab \<Rightarrow> Archive \<Rightarrow> string list \<Rightarrow> nat list \<Rightarrow> string list \<Rightarrow> Module list \<Rightarrow>
   (string list \<times> Module list) outcome \<times> Archive" where
  "resolve_loop C a [] Added kept result = (Ok (kept, result), a)"
| "resolve_loop C a (I # Next) Added kept result =
     (case findModuleDefiningSymbol C a I of
        (Abort, a1) \<Rightarrow> (Abort, a1)
      | (Fail e, a1) \<Rightarrow> resolve_loop C a1 Next Added (kept @ [I]) result
      | (Ok None, a1) \<Rightarrow> resolve_loop C a1 Next Added (kept @ [I]) result
      | (Ok (Some m), a1) \<Rightarrow>
          if ident m \<in> set Added then resolve_loop C a1 Next Added (kept @ [I]) result
          else resolve_loop C a1 Next (ident m # Added) kept (result @ [m]))"

text \<open>
  \<^verbatim>\<open>findModulesDefiningSymbols(symbols, result, error)\<close>: \<open>Ok\<close> carries the set and the
  result vector as the call leaves them.
\<close>

definition findModulesDefiningSymbols ::
  "collab \<Rightarrow> Archive \<Rightarrow> string list \<Rightarrow> Module list \<Rightarrow>
   (string list \<times> Module list) outcome \<times> Archive" where
  "findModulesDefiningSymbols C a symbols result =
     (case mapfile a of
        None \<Rightarrow> (Fail EmptyArchive, a)
      | Some mem \<Rightarrow>
          if base a = 0 then (Fail EmptyArchive, a)
          else
            (case (if symTab a = [] then buildSymTab_loop C mem a (firstFileOffset a)
                   else (Ok (), a)) of
               (Abort, a1) \<Rightarrow> (Abort, a1)
             | (Fail e, a1) \<Rightarrow> (Fail e, a1)
             | (Ok u, a1) \<Rightarrow> resolve_loop C a1 symbols [] [] result))"

subsection \<open>Archive::isBitcodeArchive\<close>

text \<open>
  The detector passes no error pointer, so the failures of the loaders end in the
  answer false. The module that \<^verbatim>\<open>parseBitcodeFile\<close> creates is destroyed at once; it
  counts in \<open>allocated\<close>.
\<close>

definition isBitcodeArchive :: "collab \<Rightarrow> Archive \<Rightarrow> bool outcome \<times> Archive" where
  "isBitcodeArchive C a =
     (case (if symTab a = [] then loadSymbolTable C a else (Ok (), a)) of
        (Abort, a1) \<Rightarrow> (Abort, a1)
      | (Fail e, a1) \<Rightarrow> (Ok False, a1)
      | (Ok u, a1) \<Rightarrow>
          if symTab a1 = [] then
            (case loadArchive C a1 of
               (Abort, a2) \<Rightarrow> (Abort, a2)
             | (Fail e, a2) \<Rightarrow> (Ok False, a2)
             | (Ok u, a2) \<Rightarrow>
                 (case List.find isBitcode (members a2) of
                    None \<Rightarrow> (Ok False, a2)
                  | Some I \<Rightarrow>
                      (case mapfile a2 of
                         None \<Rightarrow> (Abort, a2)
                       | Some mem \<Rightarrow>
                           if parseBitcodeFile C (bytes_at mem (data I) (nat (Size I)))
                                (FullMemberName a2 I)
                           then (Ok True, a2\<lparr>allocated := Suc (allocated a2)\<rparr>)
                           else (Ok False, a2))))
          else (Ok True, a1))"

subsection \<open>Example archives and an example reader\<close>

text \<open>
  The concrete inputs of the theorems below. \<open>mkHeader name size\<close> is a member
  header with the given name and size fields, blank padded; \<open>opened mem\<close> is the
  archive object after it was constructed and the file mapped (at address 4096).
  The example reader takes a payload for bitcode when it starts with the magic
  \<^verbatim>\<open>BC 0xC0 0xDE\<close> and reads the names the module defines from the rest, each ended
  by a semicolon.
\<close>

definition pad :: "nat \<Rightarrow> string \<Rightarrow> string" where
  "pad n s = s @ replicate (n - length s) BLANK"

definition mkHeader :: "string \<Rightarrow> string \<Rightarrow> string" where
  "mkHeader name sz =
     pad 16 name @ pad 12 ''0'' @ pad 6 ''0'' @ pad 6 ''0'' @ pad 8 ''644'' @ pad 10 sz
       @ ARFILE_MEMBER_MAGIC"

definition bitcode_magic :: string where
  "bitcode_magic = [CHR ''B'', CHR ''C'', CHR 0xC0, CHR 0xDE]"

fun names_of :: "string \<Rightarrow> string \<Rightarrow> string list" where
  "names_of acc [] = []"
| "names_of acc (c # cs) =
     (if c = CHR '';'' then acc # names_of [] cs else names_of (acc @ [c]) cs)"

definition reader :: collab where
  "reader =
     \<lparr> identify_bitcode = (\<lambda>s. s = bitcode_magic),
       GetBitcodeSymbols = (\<lambda>buf name. Inr (names_of [] (drop 4 buf))),
       getLazyBitcodeModule = (\<lambda>buf name. None),
       parseBitcodeFile = (\<lambda>buf name. True) \<rparr>"

definition opened :: "string \<Rightarrow> Archive" where
  "opened mem =
     \<lparr> archPath = ''lib.a'', mapfile = Some mem, base = 4096, members = [], symTab = [],
       modules = [], strtab = [], firstFileOffset = 0, allocated = 0 \<rparr>"

text \<open>One bitcode member \<^verbatim>\<open>a.bc\<close> that defines \<^verbatim>\<open>f\<close> and \<^verbatim>\<open>g\<close>.\<close>

definition archive_one :: string where
  "archive_one = ARFILE_MAGIC @ mkHeader ''a.bc/'' ''8'' @ bitcode_magic @ ''f;g;''"

text \<open>Two bitcode members, \<^verbatim>\<open>a.bc\<close> and \<^verbatim>\<open>b.bc\<close>, that both define \<^verbatim>\<open>f\<close>.\<close>

definition archive_two :: string where
  "archive_two =
     ARFILE_MAGIC @ mkHeader ''a.bc/'' ''6'' @ bitcode_magic @ ''f;''
       @ mkHeader ''b.bc/'' ''6'' @ bitcode_magic @ ''f;''"

text \<open>
  A member with the inline name \<^verbatim>\<open>ab\<close> in a block of 3 bytes and a size field of 7,
  so a payload of 4 bytes, the pad byte, and a second member.
\<close>

definition archive_long :: string where
  "archive_long =
     ARFILE_MAGIC @ mkHeader ''#1/3'' ''7'' @ [CHR ''a'', CHR ''b'', NUL] @ bitcode_magic @ [NL]
       @ mkHeader ''b.o/'' ''2'' @ ''hi''"

definition member_long :: ArchiveMember where
  "member_long =
     \<lparr> path = ''ab'', Size = 4, ModTime = 0, User = 0, Group = 0,
       flags = {BitcodeFlag, HasLongFilenameFlag}, data = 71 \<rparr>"

text \<open>A member of 5 bytes, the pad byte, and a second member.\<close>

definition archive_odd :: string where
  "archive_odd =
     ARFILE_MAGIC @ mkHeader ''a.o/'' ''5'' @ ''hello'' @ [NL] @ mkHeader ''b.o/'' ''2'' @ ''hi''"

definition member_odd :: ArchiveMember where
  "member_odd =
     \<lparr> path = ''a.o'', Size = 5, ModTime = 0, User = 0, Group = 0, flags = {}, data = 68 \<rparr>"

text \<open>A member whose name starts like an inline name but has no digit.\<close>

definition archive_badlong :: string where
  "archive_badlong = ARFILE_MAGIC @ mkHeader ''#1/x'' ''4'' @ ''data''"

text \<open>
  A member whose name field reads \<^verbatim>\<open>#1/4294967297\<close>, with a size field of 4, and the
  member the decoder makes of it.
\<close>

definition archive_wide :: string where
  "archive_wide = ARFILE_MAGIC @ mkHeader ''#1/4294967297'' ''4'' @ ''data''"

definition member_wide :: ArchiveMember where
  "member_wide =
     \<lparr> path = ''d'', Size = 3, ModTime = 0, User = 0, Group = 0,
       flags = {HasLongFilenameFlag}, data = 69 \<rparr>"

text \<open>One bitcode member \<^verbatim>\<open>a.bc\<close> that defines \<^verbatim>\<open>f\<close>, \<^verbatim>\<open>g\<close> and \<^verbatim>\<open>h\<close>.\<close>

definition archive_three :: string where
  "archive_three = ARFILE_MAGIC @ mkHeader ''a.bc/'' ''10'' @ bitcode_magic @ ''f;g;h;''"

text \<open>The first member of \<open>archive_two\<close>.\<close>

definition member_a :: ArchiveMember where
  "member_a =
     \<lparr> path = ''a.bc'', Size = 6, ModTime = 0, User = 0, Group = 0,
       flags = {BitcodeFlag}, data = 68 \<rparr>"

text \<open>The member of \<open>archive_one\<close>.\<close>

definition member_one :: ArchiveMember where
  "member_one =
     \<lparr> path = ''a.bc'', Size = 8, ModTime = 0, User = 0, Group = 0,
       flags = {BitcodeFlag}, data = 68 \<rparr>"

text \<open>One bitcode member that defines no symbol.\<close>

definition archive_nosym :: string where
  "archive_nosym = ARFILE_MAGIC @ mkHeader ''a.bc/'' ''4'' @ bitcode_magic"

text \<open>
  One member named by a reference into the string table, and an archive object for
  it that holds a string table when the load begins.
\<close>

definition archive_ref :: string where
  "archive_ref = ARFILE_MAGIC @ mkHeader ''/0'' ''4'' @ ''data''"

definition stale :: Archive where
  "stale = (opened archive_ref)\<lparr>strtab := ''long_name.o/'' @ [NL]\<rparr>"

text \<open>
  A string table of 13 bytes, the pad byte, and a member named by a reference into
  it; \<open>full mem\<close> is the archive object as \<^verbatim>\<open>OpenAndLoad\<close> leaves it (map the file,
  then \<^verbatim>\<open>loadArchive\<close>).
\<close>

definition archive_strtab :: string where
  "archive_strtab =
     ARFILE_MAGIC @ mkHeader ''//'' ''13'' @ ''long_name.o/'' @ [NL] @ [NL]
       @ mkHeader ''/0'' ''4'' @ ''data''"

definition full :: "string \<Rightarrow> Archive" where
  "full mem = snd (loadArchive reader (opened mem))"



text \<open>\<open>archive_one\<close> with two bytes after its member: too few for a header.\<close>

definition archive_trailing :: string where
  "archive_trailing = archive_one @ ''xx''"

text \<open>A reader whose \<^verbatim>\<open>parseBitcodeFile\<close> fails on every buffer.\<close>

definition reader_noparse :: collab where
  "reader_noparse = reader\<lparr>parseBitcodeFile := (\<lambda>buf name. False)\<rparr>"

text \<open>
  The archive object as \<^verbatim>\<open>OpenAndLoadSymbols\<close> leaves it (map the file, then
  \<^verbatim>\<open>loadSymbolTable\<close>), and as a first call of \<^verbatim>\<open>findModulesDefiningSymbols\<close> with an
  empty set of symbols leaves that.
\<close>

definition loaded :: "string \<Rightarrow> Archive" where
  "loaded mem = snd (loadSymbolTable reader (opened mem))"

definition indexed :: "string \<Rightarrow> Archive" where
  "indexed mem = snd (findModulesDefiningSymbols reader (loaded mem) [] [])"

text \<open>The value of a string of decimal digits, as the spec reads \<^verbatim>\<open>#1/N\<close>.\<close>

definition decimal :: "string \<Rightarrow> nat" where
  "decimal ds = foldl (\<lambda>n c. 10 * n + (of_char c - 48)) 0 ds"

subsection \<open>Evaluating the model on the examples\<close>

lemmas model_defs =
  NUL_def NL_def SLASH_def BLANK_def isdigit_def isspace_def digit_val_def atoi_def bytes_at_def
  strtol_def to_int32_def to_uint32_def clamp_long_def
  sizeof_ArchiveMemberHeader_def off_date_def off_uid_def off_gid_def off_size_def off_fmag_def
  ARFILE_MAGIC_def ARFILE_MEMBER_MAGIC_def ARFILE_STRTAB_NAME_def ARFILE_SVR4_SYMTAB_NAME_def
  ARFILE_BSD4_SYMTAB_NAME_def isBitcode_def isStringTable_def isSVR4SymbolTable_def
  isBSD4SymbolTable_def map_insert_def FullMemberName_def decodeName_def parseMemberHeader_def
  skipPayload_def checkSignature_def loadArchive_def loadSymbolTable_def
  findModuleDefiningSymbol_def findModulesDefiningSymbols_def isBitcodeArchive_def
  reader_def opened_def bitcode_magic_def Let_def loadArchive_loop.simps buildSymTab_loop.simps

lemma archive_one_bytes:
  "archive_one =
     ''!<arch>'' @ [CHR 0x0A] @
     ''a.bc/           0           0     0     644     8         '' @ [CHR 0x60, CHR 0x0A] @
     [CHR ''B'', CHR ''C'', CHR 0xC0, CHR 0xDE] @ ''f;g;''"
  by code_simp

lemma archive_two_bytes:
  "archive_two =
     ''!<arch>'' @ [CHR 0x0A] @
     ''a.bc/           0           0     0     644     6         '' @ [CHR 0x60, CHR 0x0A] @
     [CHR ''B'', CHR ''C'', CHR 0xC0, CHR 0xDE] @ ''f;'' @
     ''b.bc/           0           0     0     644     6         '' @ [CHR 0x60, CHR 0x0A] @
     [CHR ''B'', CHR ''C'', CHR 0xC0, CHR 0xDE] @ ''f;''"
  by code_simp

lemma archive_long_bytes:
  "archive_long =
     ''!<arch>'' @ [CHR 0x0A] @
     ''#1/3            0           0     0     644     7         '' @ [CHR 0x60, CHR 0x0A] @
     [CHR ''a'', CHR ''b'', CHR 0x00, CHR ''B'', CHR ''C'', CHR 0xC0, CHR 0xDE, CHR 0x0A] @
     ''b.o/            0           0     0     644     2         '' @ [CHR 0x60, CHR 0x0A] @
     ''hi''"
  by code_simp

lemma archive_odd_bytes:
  "archive_odd =
     ''!<arch>'' @ [CHR 0x0A] @
     ''a.o/            0           0     0     644     5         '' @ [CHR 0x60, CHR 0x0A] @
     ''hello'' @ [CHR 0x0A] @
     ''b.o/            0           0     0     644     2         '' @ [CHR 0x60, CHR 0x0A] @
     ''hi''"
  by code_simp

lemma archive_badlong_bytes:
  "archive_badlong =
     ''!<arch>'' @ [CHR 0x0A] @
     ''#1/x            0           0     0     644     4         '' @ [CHR 0x60, CHR 0x0A] @
     ''data''"
  by code_simp

lemma archive_wide_bytes:
  "archive_wide =
     ''!<arch>'' @ [CHR 0x0A] @
     ''#1/4294967297   0           0     0     644     4         '' @ [CHR 0x60, CHR 0x0A] @
     ''data''"
  by code_simp

lemma archive_three_bytes:
  "archive_three =
     ''!<arch>'' @ [CHR 0x0A] @
     ''a.bc/           0           0     0     644     10        '' @ [CHR 0x60, CHR 0x0A] @
     [CHR ''B'', CHR ''C'', CHR 0xC0, CHR 0xDE] @ ''f;g;h;''"
  by code_simp

lemma archive_nosym_bytes:
  "archive_nosym =
     ''!<arch>'' @ [CHR 0x0A] @
     ''a.bc/           0           0     0     644     4         '' @ [CHR 0x60, CHR 0x0A] @
     [CHR ''B'', CHR ''C'', CHR 0xC0, CHR 0xDE]"
  by code_simp

lemma archive_ref_bytes:
  "archive_ref =
     ''!<arch>'' @ [CHR 0x0A] @
     ''/0              0           0     0     644     4         '' @ [CHR 0x60, CHR 0x0A] @
     ''data''"
  by code_simp

lemma archive_strtab_bytes:
  "archive_strtab =
     ''!<arch>'' @ [CHR 0x0A] @
     ''//              0           0     0     644     13        '' @ [CHR 0x60, CHR 0x0A] @
     ''long_name.o/'' @ [CHR 0x0A, CHR 0x0A] @
     ''/0              0           0     0     644     4         '' @ [CHR 0x60, CHR 0x0A] @
     ''data''"
  by code_simp



lemmas example_defs =
  loaded_def indexed_def full_def stale_def archive_trailing_def reader_noparse_def
  member_a_def member_one_def member_wide_def

lemma parse_long:
  "parseMemberHeader reader archive_long [] 8 (length archive_long) = Ok (member_long, 71)"
  by (simp add: archive_long_bytes member_long_def model_defs
      cong: let_weak_cong)

lemma parse_odd:
  "parseMemberHeader reader archive_odd [] 8 (length archive_odd) = Ok (member_odd, 68)"
  by (simp add: archive_odd_bytes member_odd_def model_defs
      cong: let_weak_cong)

section \<open>The header decoder\<close>

subsection \<open>What atoi reads from a run of digits\<close>

lemma atoi_digits_foldl:
  "\<forall>c \<in> set ds. isdigit c \<Longrightarrow>
   atoi_digits (int n) ds = int (foldl (\<lambda>n c. 10 * n + (of_char c - 48)) n ds)"
proof (induction ds arbitrary: n)
  case Nil
  then show ?case by simp
next
  case (Cons c ds)
  have c: "isdigit c" and ds: "\<forall>c \<in> set ds. isdigit c"
    using Cons.prems by auto
  have e: "10 * int n + digit_val c = int (10 * n + (of_char c - 48))"
    using c by (simp add: isdigit_def digit_val_def)
  have "atoi_digits (int n) (c # ds) = atoi_digits (10 * int n + digit_val c) ds"
    using c by simp
  also have "\<dots> = atoi_digits (int (10 * n + (of_char c - 48))) ds"
    by (simp only: e)
  also have "\<dots> = int (foldl (\<lambda>n c. 10 * n + (of_char c - 48)) (10 * n + (of_char c - 48)) ds)"
    by (rule Cons.IH [OF ds])
  finally show ?case by simp
qed

lemma atoi_digits_stop:
  "\<forall>c \<in> set ds. isdigit c \<Longrightarrow> (case rest of [] \<Rightarrow> True | c # cs \<Rightarrow> \<not> isdigit c) \<Longrightarrow>
   atoi_digits acc (ds @ rest) = atoi_digits acc ds"
  by (induction ds arbitrary: acc) (auto split: list.splits)

lemma isdigit_not_space: "isdigit c \<Longrightarrow> \<not> isspace c"
  by (auto simp: isdigit_def isspace_def)

lemma isdigit_not_sign: "isdigit c \<Longrightarrow> c \<noteq> CHR ''-'' \<and> c \<noteq> CHR ''+''"
  by (auto simp: isdigit_def)

lemma strtol_decimal:
  assumes "ds \<noteq> []" and "\<forall>c \<in> set ds. isdigit c"
    and "case rest of [] \<Rightarrow> True | c # cs \<Rightarrow> \<not> isdigit c"
  shows "strtol (ds @ rest) = clamp_long (int (decimal ds))"
proof -
  obtain d ds' where ds: "ds = d # ds'" using assms(1) by (cases ds) auto
  have d: "isdigit d" using assms(2) ds by simp
  have "strtol (ds @ rest) = clamp_long (atoi_digits 0 (ds @ rest))"
    using isdigit_not_space [OF d] isdigit_not_sign [OF d] by (simp add: strtol_def ds)
  also have "atoi_digits 0 (ds @ rest) = atoi_digits (int 0) ds"
    using atoi_digits_stop [OF assms(2,3)] by simp
  also have "\<dots> = int (decimal ds)"
    unfolding decimal_def by (rule atoi_digits_foldl [OF assms(2)])
  finally show ?thesis .
qed

text \<open>A number below \<open>2 ^ 32\<close> is what the decoder's \<^verbatim>\<open>unsigned\<close> holds of it.\<close>

lemma atoi_decimal:
  assumes "ds \<noteq> []" and "\<forall>c \<in> set ds. isdigit c"
    and "case rest of [] \<Rightarrow> True | c # cs \<Rightarrow> \<not> isdigit c"
    and "decimal ds < 2 ^ 32"
  shows "to_uint32 (atoi (ds @ rest)) = decimal ds"
proof -
  have "int (decimal ds) < 2 ^ 32"
    using assms(4) by (metis of_nat_less_iff of_nat_numeral of_nat_power)
  then have c: "clamp_long (int (decimal ds)) = int (decimal ds)"
    by (simp add: clamp_long_def)
  have "to_uint32 (atoi (ds @ rest)) = to_uint32 (int (decimal ds))"
    by (simp add: atoi_def strtol_decimal [OF assms(1-3)] c to_uint32_to_int32)
  also have "\<dots> = decimal ds"
    using \<open>int (decimal ds) < 2 ^ 32\<close> by (simp add: to_uint32_id)
  finally show ?thesis .
qed

subsection \<open>Inline long names\<close>

text \<open>
  Claim C9, as amended. Let the fixed header at \<open>At\<close> lie inside the buffer, its size
  field \<open>sz\<close> be not negative and not run past the end, its terminator be right, and
  its name start with \<^verbatim>\<open>#1/\<close> and the decimal digits \<open>ds\<close> (the digits end where
  \<open>rest\<close> begins), whose value \<open>N\<close> is at most \<open>2 ^ 31\<close> more than \<open>sz\<close>. Then the
  decoder returns a member: its path is the bytes from the end of the fixed header up
  to the first NUL among the next \<open>N\<close> bytes, all \<open>N\<close> bytes when there is none, so
  its length is at most \<open>N\<close>; the cursor, which is also the start of the member's
  payload, is \<open>N\<close> bytes past the fixed header; and the member's size is \<open>sz\<close> less
  \<open>N\<close>.
\<close>

theorem inline_long_name:
  assumes range: "At + 60 < End"
    and sz: "sz = atoi (drop (At + off_size) mem)" "0 \<le> sz" "int At + 60 + sz \<le> int End"
    and fmag: "bytes_at mem (At + off_fmag) 2 = ARFILE_MEMBER_MAGIC"
    and name: "drop At mem = ''#1/'' @ ds @ rest"
    and ds: "ds \<noteq> []" "\<forall>c \<in> set ds. isdigit c"
    and rest: "case rest of [] \<Rightarrow> True | c # cs \<Rightarrow> \<not> isdigit c"
    and bound: "int (decimal ds) \<le> sz + 2 ^ 31"
  shows "\<exists>m. parseMemberHeader C mem stab At End = Ok (m, At + 60 + decimal ds) \<and>
             path m = takeWhile (\<lambda>c. c \<noteq> NUL) (bytes_at mem (At + 60) (decimal ds)) \<and>
             length (path m) \<le> decimal ds \<and>
             Size m = sz - int (decimal ds) \<and>
             data m = At + 60 + decimal ds \<and> HasLongFilenameFlag \<in> flags m"
proof -
  obtain d ds' where dd: "ds = d # ds'" using ds(1) by (cases ds) auto
  have d: "isdigit d" using ds(2) dd by simp
  let ?name = "bytes_at mem At 16"
  have nm: "?name = take 16 (''#1/'' @ ds @ rest)"
    by (simp add: bytes_at_def name)
  have n0: "?name ! 0 = CHR ''#''" "?name ! 1 = CHR ''1''" "?name ! 2 = SLASH" "?name ! 3 = d"
    by (simp_all add: nm dd SLASH_def)
  have szr: "sz < 2 ^ 31"
    using atoi_range [of "drop (At + off_size) mem"] sz(1) by simp
  have small: "decimal ds < 2 ^ 32"
  proof -
    have "int (decimal ds) < 2 ^ 32" using bound szr by simp
    then show ?thesis by (metis of_nat_less_iff of_nat_numeral of_nat_power)
  qed
  have "drop (At + 3) mem = drop 3 (drop At mem)"
    by (simp add: add.commute)
  then have "drop (At + 3) mem = ds @ rest"
    by (simp add: name)
  then have len: "to_uint32 (atoi (drop (At + 3) mem)) = decimal ds"
    using atoi_decimal [OF ds rest small] by simp
  have wrap: "to_int32 (sz - int (decimal ds)) = sz - int (decimal ds)"
  proof (rule to_int32_id)
    show "- (2 ^ 31) \<le> sz - int (decimal ds)" using bound by simp
    show "sz - int (decimal ds) < 2 ^ 31" using szr by linarith
  qed
  have dec: "decodeName mem stab At (At + 60) sz =
      Ok (takeWhile (\<lambda>c. c \<noteq> NUL) (bytes_at mem (At + 60) (decimal ds)),
          At + 60 + decimal ds, sz - int (decimal ds), {HasLongFilenameFlag})"
    using n0 d by (simp add: decodeName_def Let_def len wrap)
  have "length (takeWhile (\<lambda>c. c \<noteq> NUL) (bytes_at mem (At + 60) (decimal ds))) \<le> decimal ds"
    by (rule order_trans [OF length_takeWhile_le]) (simp add: bytes_at_def)
  then show ?thesis
    using range sz fmag dec
    by (simp add: parseMemberHeader_def sizeof_ArchiveMemberHeader_def Let_def)
qed

text \<open>
  The theorem at the first member of \<open>archive_long\<close>: the name field is \<^verbatim>\<open>#1/3\<close>, the
  block of 3 bytes holds \<^verbatim>\<open>ab\<close> and a NUL, the size field is 7.
\<close>

theorem inline_long_name_witness:
  "8 + 60 < length archive_long \<and>
   atoi (drop (8 + off_size) archive_long) = 7 \<and>
   decimal ''3'' = 3 \<and>
   bytes_at archive_long (8 + 60) 3 = [CHR ''a'', CHR ''b'', CHR 0x00] \<and>
   parseMemberHeader reader archive_long [] 8 (length archive_long) = Ok (member_long, 71) \<and>
   path member_long = ''ab'' \<and> length (path member_long) \<le> 3 \<and>
   71 = 8 + 60 + decimal ''3'' \<and> Size member_long = 7 - 3"
proof -
  have range: "8 + 60 < length archive_long"
    by (simp add: archive_long_bytes)
  have sz: "7 = atoi (drop (8 + off_size) archive_long)" "(0::int) \<le> 7"
    "int 8 + 60 + 7 \<le> int (length archive_long)"
    by (simp_all add: archive_long_bytes model_defs
      cong: let_weak_cong)
  have fmag: "bytes_at archive_long (8 + off_fmag) 2 = ARFILE_MEMBER_MAGIC"
    by (simp add: archive_long_bytes model_defs
      cong: let_weak_cong)
  have name: "drop 8 archive_long = ''#1/'' @ ''3'' @ drop 12 archive_long"
    by (simp add: archive_long_bytes)
  have ds: "''3'' \<noteq> []" "\<forall>c \<in> set ''3''. isdigit c"
    by (simp_all add: isdigit_def)
  have rest: "case drop 12 archive_long of [] \<Rightarrow> True | c # cs \<Rightarrow> \<not> isdigit c"
    by (simp add: archive_long_bytes isdigit_def)
  have dec: "decimal ''3'' = 3"
    by (simp add: decimal_def)
  have bound: "int (decimal ''3'') \<le> 7 + 2 ^ 31"
    by (simp add: dec)
  have blk: "bytes_at archive_long (8 + 60) 3 = [CHR ''a'', CHR ''b'', CHR 0x00]"
    by (simp add: archive_long_bytes bytes_at_def)
  from inline_long_name [OF range sz fmag name ds rest bound, of reader "[]"]
  obtain m where m: "parseMemberHeader reader archive_long [] 8 (length archive_long)
        = Ok (m, 8 + 60 + decimal ''3'')"
    and p: "path m = takeWhile (\<lambda>c. c \<noteq> NUL) (bytes_at archive_long (8 + 60) (decimal ''3''))"
      "length (path m) \<le> decimal ''3''" "Size m = 7 - int (decimal ''3'')"
    by blast
  from m parse_long have "m = member_long" by simp
  with p dec blk have "path member_long = ''ab''" "length (path member_long) \<le> 3"
    "Size member_long = 7 - 3"
    by (simp_all add: NUL_def)
  with range sz(1) dec blk parse_long show ?thesis
    by simp
qed

text \<open>
  Claim C9 as the spec states it fails on \<open>archive_wide\<close>: the name field encodes
  \<^verbatim>\<open>#1/N\<close> with \<open>N\<close> = 4294967297, the size field is 4 and the payload is \<^verbatim>\<open>data\<close>. The
  decoder holds \<open>N\<close> in an \<^verbatim>\<open>unsigned\<close>, where it is 1: the path is the one byte \<^verbatim>\<open>d\<close>
  and not the bytes up to a NUL among the next \<open>N\<close> bytes, which are \<^verbatim>\<open>data\<close>; the cursor
  moves on by 1, not by \<open>N\<close>; and the size is 3, not 4 less \<open>N\<close>.
\<close>

theorem inline_long_name_counterexample:
  "bytes_at archive_wide 8 16 = ''#1/4294967297   '' \<and>
   decimal ''4294967297'' = 4294967297 \<and>
   atoi (drop (8 + off_size) archive_wide) = 4 \<and>
   bytes_at archive_wide (8 + 60) 4 = ''data'' \<and>
   parseMemberHeader reader archive_wide [] 8 (length archive_wide) = Ok (member_wide, 69) \<and>
   path member_wide = ''d'' \<and> Size member_wide = 3 \<and>
   takeWhile (\<lambda>c. c \<noteq> NUL) (bytes_at archive_wide (8 + 60) (decimal ''4294967297'')) = ''data'' \<and>
   69 \<noteq> 8 + 60 + decimal ''4294967297'' \<and>
   Size member_wide \<noteq> 4 - int (decimal ''4294967297'')"
  by (simp add: archive_wide_bytes example_defs model_defs decimal_def
      cong: let_weak_cong)

subsection \<open>Short names\<close>

lemma decodeName_plain:
  assumes "name = bytes_at mem Hdr 16"
    and "name ! 0 \<noteq> CHR ''#''" and "name ! 0 \<noteq> SLASH" and "name \<noteq> ARFILE_BSD4_SYMTAB_NAME"
  shows "decodeName mem stab Hdr At MemberSize =
           Ok (takeWhile (\<lambda>c. c \<noteq> SLASH) name, At, MemberSize, {})"
  using assms by (simp add: decodeName_def Let_def)

text \<open>
  Claim C10, as amended. When the fixed header lies inside the buffer, the size field
  is not negative and does not run past the end, the terminator is right, and the name
  field starts with neither \<^verbatim>\<open>#\<close> nor \<^verbatim>\<open>/\<close> and is not the BSD sentinel, the decoder
  returns a member whose path is the name field up to its first \<^verbatim>\<open>/\<close>, all 16 bytes
  when it has none; the cursor is the end of the fixed header.
\<close>

theorem short_name:
  assumes "At + 60 < End" and "End \<le> length mem"
    and "0 \<le> atoi (drop (At + off_size) mem)"
    and "int At + 60 + atoi (drop (At + off_size) mem) \<le> int End"
    and "bytes_at mem (At + off_fmag) 2 = ARFILE_MEMBER_MAGIC"
    and "name = bytes_at mem At 16"
    and "name ! 0 \<noteq> CHR ''#''" and "name ! 0 \<noteq> SLASH" and "name \<noteq> ARFILE_BSD4_SYMTAB_NAME"
  shows "\<exists>m. parseMemberHeader C mem stab At End = Ok (m, At + 60) \<and>
             path m = takeWhile (\<lambda>c. c \<noteq> SLASH) name \<and>
             (if SLASH \<in> set name then length (path m) < 16 else path m = name) \<and>
             length name = 16 \<and>
             Size m = atoi (drop (At + off_size) mem) \<and> data m = At + 60"
proof -
  have len: "length name = 16"
    using assms(1,2,6) by (simp add: bytes_at_def)
  have tw: "if SLASH \<in> set name then length (takeWhile (\<lambda>c. c \<noteq> SLASH) name) < 16
            else takeWhile (\<lambda>c. c \<noteq> SLASH) name = name"
  proof (cases "SLASH \<in> set name")
    case True
    then have "takeWhile (\<lambda>c. c \<noteq> SLASH) name \<noteq> name"
      by auto
    moreover have "takeWhile (\<lambda>c. c \<noteq> SLASH) name =
        take (length (takeWhile (\<lambda>c. c \<noteq> SLASH) name)) name"
      by (rule takeWhile_eq_take)
    ultimately have "\<not> length name \<le> length (takeWhile (\<lambda>c. c \<noteq> SLASH) name)"
      by (metis take_all)
    then have "length (takeWhile (\<lambda>c. c \<noteq> SLASH) name) < length name"
      by simp
    with True len show ?thesis by simp
  next
    case False
    then have "takeWhile (\<lambda>c. c \<noteq> SLASH) name = name"
      by auto
    with False show ?thesis by simp
  qed
  show ?thesis
    using assms(1,3,4,5) tw len decodeName_plain [OF assms(6-9), of stab "At + 60"]
    by (simp add: parseMemberHeader_def sizeof_ArchiveMemberHeader_def Let_def)
qed

text \<open>The theorem at the first member of \<open>archive_odd\<close>, named \<^verbatim>\<open>a.o/\<close>.\<close>

theorem short_name_witness:
  "bytes_at archive_odd 8 16 = ''a.o/            '' \<and>
   parseMemberHeader reader archive_odd [] 8 (length archive_odd) = Ok (member_odd, 68) \<and>
   path member_odd = ''a.o''"
proof -
  have n: "''a.o/            '' = bytes_at archive_odd 8 16"
    by (simp add: archive_odd_bytes bytes_at_def)
  have h: "8 + 60 < length archive_odd" "length archive_odd \<le> length archive_odd"
    "0 \<le> atoi (drop (8 + off_size) archive_odd)"
    "int 8 + 60 + atoi (drop (8 + off_size) archive_odd) \<le> int (length archive_odd)"
    "bytes_at archive_odd (8 + off_fmag) 2 = ARFILE_MEMBER_MAGIC"
    by (simp_all add: archive_odd_bytes model_defs
      cong: let_weak_cong)
  have x: "''a.o/            '' ! 0 \<noteq> CHR ''#''" "''a.o/            '' ! 0 \<noteq> SLASH"
    "''a.o/            '' \<noteq> ARFILE_BSD4_SYMTAB_NAME"
    by (simp_all add: model_defs
      cong: let_weak_cong)
  from short_name [OF h n x, of reader "[]"]
  obtain m where m: "parseMemberHeader reader archive_odd [] 8 (length archive_odd) = Ok (m, 8 + 60)"
    and p: "path m = takeWhile (\<lambda>c. c \<noteq> SLASH) ''a.o/            ''"
    by blast
  from m parse_odd have "m = member_odd" by simp
  with p have "path member_odd = ''a.o''"
    by (simp add: SLASH_def)
  with parse_odd n show ?thesis by simp
qed

text \<open>
  Claim C10 as the spec states it fails: the name field \<^verbatim>\<open>#1/x\<close> matches none of the
  five encodings (no digit follows \<^verbatim>\<open>#1/\<close>), the size and the terminator are right,
  and the decoder does not succeed: it reports an invalid long filename (line 81).
\<close>

theorem short_name_counterexample:
  "bytes_at archive_badlong 8 16 = ''#1/x            '' \<and>
   parseMemberHeader reader archive_badlong [] 8 (length archive_badlong)
     = Fail InvalidLongFilename"
  by (simp add: archive_badlong_bytes model_defs
      cong: let_weak_cong)

text \<open>
  The other names that start with \<^verbatim>\<open>#\<close> or \<^verbatim>\<open>/\<close> and match no encoding: two slashes
  or a slash and a blank that are not the sentinel are errors; any other gets the
  empty path, because those cases of the switch leave \<^verbatim>\<open>pathname\<close> as it was declared.
\<close>

lemma special_names_rejected:
  assumes "name = bytes_at mem Hdr 16"
  shows "name ! 0 = SLASH \<Longrightarrow> name ! 1 = SLASH \<Longrightarrow> name \<noteq> ARFILE_STRTAB_NAME \<Longrightarrow>
           decodeName mem stab Hdr At sz = Fail InvalidStringTableName"
    and "name ! 0 = SLASH \<Longrightarrow> name ! 1 = BLANK \<Longrightarrow> name \<noteq> ARFILE_SVR4_SYMTAB_NAME \<Longrightarrow>
           decodeName mem stab Hdr At sz = Fail InvalidSVR4SymbolTableName"
    and "name ! 0 = CHR ''#'' \<Longrightarrow> name ! 1 = CHR ''1'' \<Longrightarrow> name ! 2 = SLASH \<Longrightarrow>
           \<not> isdigit (name ! 3) \<Longrightarrow> decodeName mem stab Hdr At sz = Fail InvalidLongFilename"
  using assms by (simp_all add: decodeName_def Let_def SLASH_def BLANK_def)

lemma unmatched_names_empty_path:
  assumes "name = bytes_at mem Hdr 16"
  shows "name ! 0 = CHR ''#'' \<Longrightarrow> \<not> (name ! 1 = CHR ''1'' \<and> name ! 2 = SLASH) \<Longrightarrow>
           decodeName mem stab Hdr At sz = Ok ([], At, sz, {})"
    and "name ! 0 = SLASH \<Longrightarrow> name ! 1 \<noteq> SLASH \<Longrightarrow> name ! 1 \<noteq> BLANK \<Longrightarrow>
           \<not> isdigit (name ! 1) \<Longrightarrow> decodeName mem stab Hdr At sz = Ok ([], At, sz, {})"
  using assms by (simp_all add: decodeName_def Let_def SLASH_def BLANK_def)

section \<open>The step from one member to the next\<close>

lemma decodeName_no_long:
  assumes "decodeName mem stab Hdr At MemberSize = Ok (p, At2, MemberSize2, fl)"
    and "HasLongFilenameFlag \<notin> fl"
  shows "At2 = At \<and> MemberSize2 = MemberSize"
  using assms
  by (auto simp: decodeName_def Let_def split: if_splits list.splits option.splits)

lemma parseMemberHeader_no_long:
  assumes "parseMemberHeader C mem stab At End = Ok (m, P)"
    and "HasLongFilenameFlag \<notin> flags m"
  shows "P = At + 60 \<and> Size m = atoi (drop (At + off_size) mem)"
proof -
  from assms(1) obtain p At2 sz2 fl where
    d: "decodeName mem stab At (At + 60) (atoi (drop (At + off_size) mem)) = Ok (p, At2, sz2, fl)"
    and m: "P = At2" "Size m = sz2"
      "flags m = (if identify_bitcode C (bytes_at mem At2 4)
                  then insert BitcodeFlag fl else fl - {BitcodeFlag})"
    by (auto simp: parseMemberHeader_def sizeof_ArchiveMemberHeader_def Let_def
        split: if_splits outcome.splits)
  have "HasLongFilenameFlag \<notin> fl"
    using assms(2) m(3) by (auto split: if_splits)
  from decodeName_no_long [OF d this] m show ?thesis by simp
qed

text \<open>
  Claim C6, as amended. Let the full loader (\<open>loadArchive_loop\<close>) or the symbol
  indexer (\<open>buildSymTab_loop\<close>) stand at a header at an even address, which the
  decoder turns into the member \<open>mbr\<close> and the cursor \<open>At1\<close>; let \<open>sz\<close> be the size
  field, and let an inline name be no more than \<open>2 ^ 31\<close> bytes longer than \<open>sz\<close>.
  Then either scan goes on at the cursor \<open>nxt\<close>, the end of the fixed header plus
  \<open>sz\<close>, and one more when \<open>sz\<close> is odd, and the address of \<open>nxt\<close> is even again.
  For a member without a long name the payload starts at the end of the fixed header
  and its size is \<open>sz\<close>, so \<open>nxt\<close> is payload start + size + 1 for an odd size and
  payload start + size for an even one.
\<close>

theorem next_header:
  assumes lt: "At < length mem"
    and ok: "parseMemberHeader C mem (strtab a) At (length mem) = Ok (mbr, At1)"
    and ev: "even (base a + At)"
    and sz: "sz = nat (atoi (drop (At + off_size) mem))"
    and nw: "At1 \<le> At + 60 + sz + 2 ^ 31"
    and nxt: "nxt = (if odd sz then At + 60 + sz + 1 else At + 60 + sz)"
  shows "even (base a + nxt) \<and>
         loadArchive_loop C mem a At found =
           (if isSVR4SymbolTable mbr \<or> isBSD4SymbolTable mbr then
              loadArchive_loop C mem a nxt found
            else if isStringTable mbr then
              loadArchive_loop C mem (a\<lparr>strtab := bytes_at mem At1 (nat (Size mbr))\<rparr>) nxt found
            else
              loadArchive_loop C mem
                (a\<lparr>firstFileOffset := (if found then firstFileOffset a else At),
                   members := members a @ [mbr]\<rparr>) nxt True) \<and>
         buildSymTab_loop C mem a At =
           (if isBitcode mbr then
              (case GetBitcodeSymbols C (bytes_at mem At1 (nat (Size mbr))) (FullMemberName a mbr) of
                 Inl msg \<Rightarrow> (Fail (CantParseBitcodeMember (path mbr) msg), a)
               | Inr symbols \<Rightarrow>
                   buildSymTab_loop C mem
                     (a\<lparr>symTab := insertSymbols (symTab a) symbols (At - firstFileOffset a),
                        modules := map_insert (modules a) (At - firstFileOffset a)
                          (\<lparr>ident = allocated a,
                            contents = bytes_at mem At1 (nat (Size mbr))\<rparr>, mbr),
                        allocated := Suc (allocated a)\<rparr>) nxt)
            else buildSymTab_loop C mem a nxt) \<and>
         (HasLongFilenameFlag \<notin> flags mbr \<longrightarrow>
            At1 = At + 60 \<and> Size mbr = int sz \<and>
            nxt = (if odd (Size mbr) then At1 + nat (Size mbr) + 1 else At1 + nat (Size mbr)))"
proof -
  have a0: "0 \<le> atoi (drop (At + off_size) mem)"
    by (rule parseMemberHeader_sum(2) [OF ok])
  have "int At1 \<le> int At + 60 + atoi (drop (At + off_size) mem) + 2 ^ 31"
  proof -
    have "int At1 \<le> int (At + 60 + sz + 2 ^ 31)"
      using nw by (simp only: of_nat_le_iff)
    then show ?thesis using a0 sz by simp
  qed
  from parseMemberHeader_sum_eq [OF ok this]
  have "int At1 + Size mbr = int At + 60 + int sz"
    using a0 sz by simp
  then have n: "nat (int At1 + Size mbr) = At + 60 + sz"
    by linarith
  have skp: "skipPayload a At1 mbr = nxt"
    using ev nxt by (auto simp: skipPayload_def Let_def n)
  have 1: "even (base a + nxt)"
    using ev nxt by auto
  have 2: "loadArchive_loop C mem a At found =
           (if isSVR4SymbolTable mbr \<or> isBSD4SymbolTable mbr then
              loadArchive_loop C mem a nxt found
            else if isStringTable mbr then
              loadArchive_loop C mem (a\<lparr>strtab := bytes_at mem At1 (nat (Size mbr))\<rparr>) nxt found
            else
              loadArchive_loop C mem
                (a\<lparr>firstFileOffset := (if found then firstFileOffset a else At),
                   members := members a @ [mbr]\<rparr>) nxt True)"
    using lt ok skp by (simp add: loadArchive_loop.simps [of C mem a At found])
  have 3: "buildSymTab_loop C mem a At =
           (if isBitcode mbr then
              (case GetBitcodeSymbols C (bytes_at mem At1 (nat (Size mbr))) (FullMemberName a mbr) of
                 Inl msg \<Rightarrow> (Fail (CantParseBitcodeMember (path mbr) msg), a)
               | Inr symbols \<Rightarrow>
                   buildSymTab_loop C mem
                     (a\<lparr>symTab := insertSymbols (symTab a) symbols (At - firstFileOffset a),
                        modules := map_insert (modules a) (At - firstFileOffset a)
                          (\<lparr>ident = allocated a,
                            contents = bytes_at mem At1 (nat (Size mbr))\<rparr>, mbr),
                        allocated := Suc (allocated a)\<rparr>) nxt)
            else buildSymTab_loop C mem a nxt)"
    using lt ok skp
    by (simp add: buildSymTab_loop.simps [of C mem a At] Let_def split: sum.split)
  have 4: "At1 = At + 60 \<and> Size mbr = int sz \<and>
      nxt = (if odd (Size mbr) then At1 + nat (Size mbr) + 1 else At1 + nat (Size mbr))"
    if "HasLongFilenameFlag \<notin> flags mbr"
    using parseMemberHeader_no_long [OF ok that] a0 sz nxt by (auto simp: even_nat_iff)
  from 1 2 3 4 show ?thesis by blast
qed

text \<open>
  The theorem at the first member of \<open>archive_odd\<close>: the header is at offset 8 of a
  file mapped at 4096, the payload of 5 bytes starts at 68, and both scans go on at
  74.
\<close>

theorem next_header_witness:
  "8 < length archive_odd \<and>
   parseMemberHeader reader archive_odd (strtab (opened archive_odd)) 8 (length archive_odd)
     = Ok (member_odd, 68) \<and>
   even (base (opened archive_odd) + 8) \<and>
   nat (atoi (drop (8 + off_size) archive_odd)) = 5 \<and>
   HasLongFilenameFlag \<notin> flags member_odd \<and> Size member_odd = 5 \<and>
   even (base (opened archive_odd) + 74) \<and>
   loadArchive_loop reader archive_odd (opened archive_odd) 8 False =
     loadArchive_loop reader archive_odd
       ((opened archive_odd)\<lparr>firstFileOffset := 8,
          members := members (opened archive_odd) @ [member_odd]\<rparr>) 74 True \<and>
   buildSymTab_loop reader archive_odd (opened archive_odd) 8 =
     buildSymTab_loop reader archive_odd (opened archive_odd) 74 \<and>
   74 = 68 + nat (Size member_odd) + 1"
proof -
  have lt: "8 < length archive_odd"
    by (simp add: archive_odd_bytes)
  have ok: "parseMemberHeader reader archive_odd (strtab (opened archive_odd)) 8
      (length archive_odd) = Ok (member_odd, 68)"
    using parse_odd by (simp add: opened_def)
  have ev: "even (base (opened archive_odd) + 8)"
    by (simp add: opened_def)
  have sz: "5 = nat (atoi (drop (8 + off_size) archive_odd))"
    by (simp add: archive_odd_bytes model_defs
      cong: let_weak_cong)
  have nw: "68 \<le> 8 + 60 + 5 + (2::nat) ^ 31"
    by simp
  have nxt: "74 = (if odd (5::nat) then 8 + 60 + 5 + 1 else 8 + 60 + 5)"
    by simp
  have fl: "flags member_odd = {}" "Size member_odd = 5"
    by (simp_all add: member_odd_def)
  from next_header [OF lt ok ev sz nw nxt, of False] fl lt ok ev sz
  show ?thesis
    by (simp add: isSVR4SymbolTable_def isBSD4SymbolTable_def isStringTable_def isBitcode_def)
qed

text \<open>
  Claim C6 as the spec states it fails at the first member of \<open>archive_long\<close>: its
  payload starts at 71 and its size is 4, an even number, and both scans go on at 76,
  which is payload start + size + 1. The full loader finds the second member's
  payload at 136 = 76 + 60.
\<close>

theorem next_header_counterexample:
  "parseMemberHeader reader archive_long [] 8 (length archive_long) = Ok (member_long, 71) \<and>
   data member_long = 71 \<and> Size member_long = 4 \<and>
   skipPayload (opened archive_long) 71 member_long = 71 + 4 + 1 \<and>
   loadArchive_loop reader archive_long (opened archive_long) 8 False =
     loadArchive_loop reader archive_long
       ((opened archive_long)\<lparr>firstFileOffset := 8,
          members := members (opened archive_long) @ [member_long]\<rparr>) 76 True \<and>
   buildSymTab_loop reader archive_long (opened archive_long) 8 =
     buildSymTab_loop reader archive_long
       ((opened archive_long)\<lparr>modules := [(8, \<lparr>ident = 0, contents = bitcode_magic\<rparr>, member_long)],
          allocated := 1\<rparr>) 76 \<and>
   map data (members (snd (loadArchive reader (opened archive_long)))) = [71, 136]"
  by (simp add: archive_long_bytes member_long_def model_defs
      cong: let_weak_cong)

section \<open>The symbol table\<close>

subsection \<open>A name that two members define\<close>

lemma map_insert_map_of:
  "map_of (map_insert st k v) n =
     (case map_of st n of Some x \<Rightarrow> Some x | None \<Rightarrow> if n = k then Some v else None)"
  by (auto simp: map_insert_def map_add_def split: option.splits)

lemma insertSymbols_map_of:
  "map_of (insertSymbols st syms off) n =
     (case map_of st n of Some x \<Rightarrow> Some x | None \<Rightarrow> if n \<in> set syms then Some off else None)"
  by (induction syms arbitrary: st) (auto simp: map_insert_map_of split: option.splits)

text \<open>The scan never changes an entry that is in the table.\<close>

lemma buildSymTab_keeps:
  "buildSymTab_loop C mem a At = (r, a') \<Longrightarrow> map_of (symTab a) n = Some k \<Longrightarrow>
   map_of (symTab a') n = Some k"
proof (induction C mem a At arbitrary: r a' rule: buildSymTab_loop.induct)
  case (1 C mem a At)
  note run = "1.prems"(1) [unfolded buildSymTab_loop.simps [of C mem a At]]
  note k = "1.prems"(2)
  show ?case
  proof (cases "At < length mem")
    case False
    with run k show ?thesis by simp
  next
    case lt: True
    show ?thesis
    proof (cases "parseMemberHeader C mem (strtab a) At (length mem)")
      case (Ok x1)
      obtain mbr At1 where x1: "(mbr, At1) = x1" by (cases x1) auto
      show ?thesis
      proof (cases "isBitcode mbr")
        case nb: False
        from run lt Ok x1 nb have "buildSymTab_loop C mem a (skipPayload a At1 mbr) = (r, a')"
          by (auto simp: Let_def)
        from "1.IH"(2) [OF lt refl Ok x1 nb this k] show ?thesis .
      next
        case bc: True
        show ?thesis
        proof (cases "GetBitcodeSymbols C (bytes_at mem At1 (nat (Size mbr))) (FullMemberName a mbr)")
          case (Inl msg)
          with run lt Ok x1 bc k show ?thesis by (auto simp: Let_def)
        next
          case (Inr b)
          let ?M = "\<lparr>ident = allocated a, contents = bytes_at mem At1 (nat (Size mbr))\<rparr>"
          let ?a1 = "a\<lparr>symTab := insertSymbols (symTab a) b (At - firstFileOffset a),
                        modules := map_insert (modules a) (At - firstFileOffset a) (?M, mbr),
                        allocated := Suc (allocated a)\<rparr>"
          from run lt Ok x1 bc Inr
          have "buildSymTab_loop C mem ?a1 (skipPayload a At1 mbr) = (r, a')"
            by (auto simp: Let_def)
          moreover have "map_of (symTab ?a1) n = Some k"
            using k by (simp add: insertSymbols_map_of)
          ultimately show ?thesis
            using "1.IH"(1) [OF lt refl Ok x1 bc Inr refl] by blast
        qed
      qed
    qed (use run lt k in auto)
  qed
qed

text \<open>
  Claim C1, as amended. When the scan stands at a bitcode member that defines the name
  \<open>n\<close>, then however the scan ends, the entry of \<open>n\<close> is the one the table had before
  this member, if it had one, and else the relative offset of this member: the members
  scanned later that define \<open>n\<close> do not change it. The member scanned first wins.
\<close>

theorem first_definition_wins:
  assumes lt: "At < length mem"
    and ok: "parseMemberHeader C mem (strtab a) At (length mem) = Ok (mbr, At1)"
    and bc: "isBitcode mbr"
    and sy: "GetBitcodeSymbols C (bytes_at mem At1 (nat (Size mbr))) (FullMemberName a mbr)
               = Inr symbols"
    and n: "n \<in> set symbols"
    and run: "buildSymTab_loop C mem a At = (r, a')"
  shows "map_of (symTab a') n =
           Some (case map_of (symTab a) n of None \<Rightarrow> At - firstFileOffset a | Some k \<Rightarrow> k)"
proof -
  let ?M = "\<lparr>ident = allocated a, contents = bytes_at mem At1 (nat (Size mbr))\<rparr>"
  let ?a1 = "a\<lparr>symTab := insertSymbols (symTab a) symbols (At - firstFileOffset a),
                modules := map_insert (modules a) (At - firstFileOffset a) (?M, mbr),
                allocated := Suc (allocated a)\<rparr>"
  from run lt ok bc sy
  have "buildSymTab_loop C mem ?a1 (skipPayload a At1 mbr) = (r, a')"
    by (simp add: buildSymTab_loop.simps [of C mem a At] Let_def)
  moreover have "map_of (symTab ?a1) n =
      Some (case map_of (symTab a) n of None \<Rightarrow> At - firstFileOffset a | Some k \<Rightarrow> k)"
    using n by (simp add: insertSymbols_map_of split: option.splits)
  ultimately show ?thesis
    by (rule buildSymTab_keeps)
qed

text \<open>
  The theorem at the first member of \<open>archive_two\<close>, whose two members define \<^verbatim>\<open>f\<close>:
  the scan starts at offset 8 with an empty table and ends with \<^verbatim>\<open>f\<close> at the relative
  offset 0.
\<close>

theorem first_definition_wins_witness:
  "8 < length archive_two \<and>
   parseMemberHeader reader archive_two (strtab (loaded archive_two)) 8 (length archive_two)
     = Ok (member_a, 68) \<and>
   isBitcode member_a \<and>
   GetBitcodeSymbols reader (bytes_at archive_two 68 (nat (Size member_a)))
     (FullMemberName (loaded archive_two) member_a) = Inr [''f''] \<and>
   map_of (symTab (loaded archive_two)) ''f'' = None \<and>
   firstFileOffset (loaded archive_two) = 8 \<and>
   map_of (symTab (snd (buildSymTab_loop reader archive_two (loaded archive_two) 8))) ''f''
     = Some 0"
proof -
  have lt: "8 < length archive_two"
    by (simp add: archive_two_bytes)
  have ok: "parseMemberHeader reader archive_two (strtab (loaded archive_two)) 8
      (length archive_two) = Ok (member_a, 68)"
    by (simp add: archive_two_bytes example_defs model_defs
      cong: let_weak_cong)
  have bc: "isBitcode member_a"
    by (simp add: member_a_def isBitcode_def)
  have sy: "GetBitcodeSymbols reader (bytes_at archive_two 68 (nat (Size member_a)))
      (FullMemberName (loaded archive_two) member_a) = Inr [''f'']"
    by (simp add: archive_two_bytes example_defs model_defs
      cong: let_weak_cong)
  have n: "''f'' \<in> set [''f'']"
    by simp
  have run: "buildSymTab_loop reader archive_two (loaded archive_two) 8 =
      (fst (buildSymTab_loop reader archive_two (loaded archive_two) 8),
       snd (buildSymTab_loop reader archive_two (loaded archive_two) 8))"
    by simp
  have e: "map_of (symTab (loaded archive_two)) ''f'' = None"
    "firstFileOffset (loaded archive_two) = 8"
    by (simp_all add: archive_two_bytes example_defs model_defs
      cong: let_weak_cong)
  from first_definition_wins [OF lt ok bc sy n run] e lt ok bc sy
  show ?thesis
    by simp
qed

text \<open>
  Claim C1 as the spec states it fails on \<open>archive_two\<close>: the scan caches its two
  bitcode members under the relative offsets 0 and 66, the later one (its payload is at
  8 + 66 + 60) defines \<^verbatim>\<open>f\<close> as the first does, and the entry of \<^verbatim>\<open>f\<close> is the offset 0
  of the first member.
\<close>

theorem later_definition_counterexample:
  "fst (findModulesDefiningSymbols reader (loaded archive_two) [] []) = Ok ([], []) \<and>
   firstFileOffset (indexed archive_two) = 8 \<and>
   map fst (modules (indexed archive_two)) = [0, 66] \<and>
   map (\<lambda>e. path (snd (snd e))) (modules (indexed archive_two)) = [''a.bc'', ''b.bc''] \<and>
   GetBitcodeSymbols reader (bytes_at archive_two (8 + 66 + 60) 6) ''lib.a(b.bc)'' = Inr [''f''] \<and>
   map_of (symTab (indexed archive_two)) ''f'' = Some 0"
  by (simp add: archive_two_bytes example_defs model_defs
      cong: let_weak_cong)

subsection \<open>When the table is built\<close>

lemma findModuleDefiningSymbol_symTab:
  "symTab (snd (findModuleDefiningSymbol C a s)) = symTab a"
  by (simp add: findModuleDefiningSymbol_def Let_def
      split: option.splits outcome.splits prod.splits)

lemma resolve_loop_symTab:
  "symTab (snd (resolve_loop C a syms Added kept res)) = symTab a"
proof (induction syms arbitrary: a Added kept res)
  case Nil
  then show ?case by simp
next
  case (Cons I Next)
  obtain r a1 where f: "findModuleDefiningSymbol C a I = (r, a1)"
    by (cases "findModuleDefiningSymbol C a I")
  have a1: "symTab a1 = symTab a"
    using findModuleDefiningSymbol_symTab [of C a I] f by simp
  show ?case
    using Cons.IH [of a1] a1 f
    by (simp split: outcome.splits option.splits)
qed

text \<open>
  Claim C4, as amended. Once the symbol table is not empty,
  \<^verbatim>\<open>findModulesDefiningSymbols\<close> on a mapped archive is the loop over the requested
  symbols alone, with no scan of the members, and it leaves the table as it is; and
  \<^verbatim>\<open>isBitcodeArchive\<close> answers true and leaves the whole archive as it is.
\<close>

theorem symTab_built_once:
  assumes "symTab a \<noteq> []" and "mapfile a = Some mem" and "base a \<noteq> 0"
  shows "findModulesDefiningSymbols C a syms res = resolve_loop C a syms [] [] res \<and>
         symTab (snd (findModulesDefiningSymbols C a syms res)) = symTab a \<and>
         isBitcodeArchive C a = (Ok True, a)"
  using assms
  by (simp add: findModulesDefiningSymbols_def isBitcodeArchive_def resolve_loop_symTab)

text \<open>The theorem at \<open>archive_one\<close> after its symbol table was built.\<close>

theorem symTab_built_once_witness:
  "symTab (indexed archive_one) = [(''f'', 0), (''g'', 0)] \<and>
   mapfile (indexed archive_one) = Some archive_one \<and>
   base (indexed archive_one) = 4096 \<and>
   findModulesDefiningSymbols reader (indexed archive_one) [''f''] []
     = resolve_loop reader (indexed archive_one) [''f''] [] [] [] \<and>
   symTab (snd (findModulesDefiningSymbols reader (indexed archive_one) [''f''] []))
     = [(''f'', 0), (''g'', 0)] \<and>
   isBitcodeArchive reader (indexed archive_one) = (Ok True, indexed archive_one)"
proof -
  have s: "symTab (indexed archive_one) = [(''f'', 0), (''g'', 0)]"
    by (simp add: archive_one_bytes example_defs model_defs
      cong: let_weak_cong)
  have m: "mapfile (indexed archive_one) = Some archive_one"
    by (simp add: archive_one_bytes example_defs model_defs
      cong: let_weak_cong)
  have b: "base (indexed archive_one) = 4096"
    by (simp add: archive_one_bytes example_defs model_defs
      cong: let_weak_cong)
  have s': "symTab (indexed archive_one) \<noteq> []" and b': "base (indexed archive_one) \<noteq> 0"
    using s b by simp_all
  from symTab_built_once [OF s' m b', of reader "[''f'']" "[]"] s m b
  show ?thesis
    by (simp del: resolve_loop.simps add: resolve_loop_symTab)
qed

text \<open>
  Claim C4 as the spec states it fails on \<open>archive_nosym\<close>: the first call builds the
  table with success, the one module it reads defines no symbol, so the table stays
  empty; the second call scans the member again and has \<^verbatim>\<open>GetBitcodeSymbols\<close> create a
  second module.
\<close>

theorem symTab_rebuilt_counterexample:
  "fst (findModulesDefiningSymbols reader (loaded archive_nosym) [] []) = Ok ([], []) \<and>
   symTab (indexed archive_nosym) = [] \<and>
   allocated (indexed archive_nosym) = 1 \<and>
   fst (findModulesDefiningSymbols reader (indexed archive_nosym) [] []) = Ok ([], []) \<and>
   allocated (snd (findModulesDefiningSymbols reader (indexed archive_nosym) [] [])) = 2"
  by (simp add: archive_nosym_bytes example_defs model_defs
      cong: let_weak_cong)

section \<open>The module cache\<close>

text \<open>
  Claim C2 fails on the code. \<open>archive_one\<close> has one member, at the absolute offset
  8, and \<^verbatim>\<open>firstFileOffset\<close> is 8. The scan caches the member's module under the key 0,
  its relative offset (line 446); the resolution of \<^verbatim>\<open>f\<close> looks for the key 8, does not
  find it, reads the member a second time and caches that module under 8 (line 392).
  The comment on lines 410 to 413 says the scan fills the cache so that no member is
  loaded twice. (The call returns with \<^verbatim>\<open>f\<close> still in the set and an empty result,
  because the lookup that has just cached a module returns the null pointer.)
\<close>

theorem cache_keys_of_scan_and_resolution:
  "fst (findModulesDefiningSymbols reader (loaded archive_one) [''f''] []) = Ok ([''f''], []) \<and>
   firstFileOffset (snd (findModulesDefiningSymbols reader (loaded archive_one) [''f''] [])) = 8 \<and>
   map fst (modules (indexed archive_one)) = [0] \<and>
   map fst (modules (snd (findModulesDefiningSymbols reader (loaded archive_one) [''f''] [])))
     = [0, 8] \<and>
   map (\<lambda>e. data (snd (snd e)))
     (modules (snd (findModulesDefiningSymbols reader (loaded archive_one) [''f''] [])))
     = [68, 68] \<and>
   allocated (snd (findModulesDefiningSymbols reader (loaded archive_one) [''f''] [])) = 2"
  by (simp add: archive_one_bytes example_defs model_defs
      cong: let_weak_cong)

text \<open>What resolution inserts is keyed by the absolute offset.\<close>

lemma resolution_keys_absolute:
  assumes "findModuleDefiningSymbol C a s = (r, a')" and "modules a' \<noteq> modules a"
  shows "\<exists>rel M mbr. map_of (symTab a) s = Some rel \<and>
           modules a' = modules a @ [(rel + firstFileOffset a, M, mbr)]"
  using assms
  by (auto simp: findModuleDefiningSymbol_def Let_def map_insert_def
      split: option.splits outcome.splits prod.splits)

section \<open>Resolution of many symbols\<close>

text \<open>
  Claim C3 fails on the code. The one member of \<open>archive_three\<close> defines \<^verbatim>\<open>f\<close>, \<^verbatim>\<open>g\<close>
  and \<^verbatim>\<open>h\<close>. A call with the set of the three names succeeds and puts the module
  into the result once, and only \<^verbatim>\<open>g\<close> is erased from the set. For \<^verbatim>\<open>f\<close> the lookup
  reads and caches the module and returns the null pointer (line 394), so the loop
  takes the name for one that is not defined (line 476). For \<^verbatim>\<open>g\<close> the lookup
  finds the module in the cache; it goes into the result and \<^verbatim>\<open>g\<close> is erased. For
  \<^verbatim>\<open>h\<close> the lookup returns the same module, and the loop goes to the next name (line
  479) before it reaches the erase (line 485). After the call the lookup returns the
  module for \<^verbatim>\<open>f\<close> and for \<^verbatim>\<open>h\<close>, and both are still in the set.
\<close>

theorem resolved_names_stay:
  "fst (findModulesDefiningSymbols reader (loaded archive_three) [''f'', ''g'', ''h''] [])
     = Ok ([''f'', ''h''], [\<lparr>ident = 1, contents = bitcode_magic @ ''f;g;h;''\<rparr>]) \<and>
   fst (findModuleDefiningSymbol reader
          (snd (findModulesDefiningSymbols reader (loaded archive_three) [''f'', ''g'', ''h''] []))
          ''f'')
     = Ok (Some \<lparr>ident = 1, contents = bitcode_magic @ ''f;g;h;''\<rparr>) \<and>
   fst (findModuleDefiningSymbol reader
          (snd (findModulesDefiningSymbols reader (loaded archive_three) [''f'', ''g'', ''h''] []))
          ''h'')
     = Ok (Some \<lparr>ident = 1, contents = bitcode_magic @ ''f;g;h;''\<rparr>)"
  by (simp add: archive_three_bytes example_defs model_defs
      cong: let_weak_cong)

section \<open>The full loader\<close>

lemma loadArchive_loop_frame:
  "loadArchive_loop C mem a At f = (r, a') \<Longrightarrow>
   symTab a' = symTab a \<and> mapfile a' = mapfile a \<and> allocated a' = allocated a"
proof (induction C mem a At f arbitrary: r a' rule: loadArchive_loop.induct)
  case (1 C mem a At foundFirstFile)
  note run = "1.prems" [unfolded loadArchive_loop.simps [of C mem a At foundFirstFile]]
  show ?case
  proof (cases "At < length mem")
    case False
    with run show ?thesis by auto
  next
    case lt: True
    show ?thesis
    proof (cases "parseMemberHeader C mem (strtab a) At (length mem)")
      case (Ok x1)
      obtain mbr At1 where x1: "(mbr, At1) = x1" by (cases x1) auto
      consider (sym) "isSVR4SymbolTable mbr \<or> isBSD4SymbolTable mbr"
        | (str) "\<not> (isSVR4SymbolTable mbr \<or> isBSD4SymbolTable mbr)" "isStringTable mbr"
        | (reg) "\<not> (isSVR4SymbolTable mbr \<or> isBSD4SymbolTable mbr)" "\<not> isStringTable mbr"
        by blast
      then show ?thesis
      proof cases
        case sym
        with run lt Ok x1
        have "loadArchive_loop C mem a (skipPayload a At1 mbr) foundFirstFile = (r, a')"
          by auto
        from "1.IH"(1) [OF lt Ok x1 sym this] show ?thesis .
      next
        case str
        with run lt Ok x1
        have "loadArchive_loop C mem (a\<lparr>strtab := bytes_at mem At1 (nat (Size mbr))\<rparr>)
            (skipPayload a At1 mbr) foundFirstFile = (r, a')"
          by auto
        from "1.IH"(2) [OF lt Ok x1 str this] show ?thesis by simp
      next
        case reg
        with run lt Ok x1
        have "loadArchive_loop C mem
            (a\<lparr>firstFileOffset := (if foundFirstFile then firstFileOffset a else At),
               members := members a @ [mbr]\<rparr>)
            (skipPayload a At1 mbr) True = (r, a')"
          by auto
        from "1.IH"(3) [OF lt Ok x1 reg this] show ?thesis by simp
      qed
    qed (use run lt in auto)
  qed
qed

lemma loadArchive_frame:
  assumes "loadArchive C a = (r, a')"
  shows "symTab a' = [] \<and> mapfile a' = mapfile a \<and> allocated a' = allocated a"
proof (cases "mapfile a")
  case None
  with assms show ?thesis by (auto simp: loadArchive_def)
next
  case (Some mem)
  show ?thesis
  proof (cases "checkSignature mem")
    case True
    with assms Some
    have "loadArchive_loop C mem (a\<lparr>members := [], symTab := []\<rparr>) 8 False = (r, a')"
      by (simp add: loadArchive_def)
    from loadArchive_loop_frame [OF this] show ?thesis by simp
  next
    case False
    with assms Some show ?thesis by (auto simp: loadArchive_def)
  qed
qed

lemma loadArchive_unmapped:
  "mapfile a = None \<Longrightarrow> fst (loadArchive C a) = Abort"
  by (simp add: loadArchive_def)

text \<open>
  Claim C5, as amended. \<^verbatim>\<open>loadArchive\<close> begins by clearing the member list and the
  symbol table: whatever they held before, the load does and returns the same, and the
  symbol table is empty when it returns. (The string table is not cleared.)
\<close>

theorem loadArchive_clears:
  "loadArchive C (a\<lparr>members := ms, symTab := st\<rparr>) = loadArchive C a \<and>
   symTab (snd (loadArchive C a)) = []"
proof -
  obtain r a' where "loadArchive C a = (r, a')" by (cases "loadArchive C a")
  from loadArchive_frame [OF this] this show ?thesis
    by (simp add: loadArchive_def)
qed

text \<open>
  Claim C5 as the spec states it fails for the string table. A first full load of
  \<open>archive_strtab\<close> succeeds and leaves its string table in the archive object; a
  second load of that object is the scan started with the member list and the symbol
  table cleared and the string table of the first load still in place. What a string
  table that is in place does to a scan shows on the archive object \<open>stale\<close>: the
  load reads the name of the member \<^verbatim>\<open>/0\<close> from it and succeeds; begun with the three
  collections cleared, the same load fails, because the name index lies beyond the
  empty string table.
\<close>

theorem loadArchive_keeps_strtab_counterexample:
  "fst (loadArchive reader (opened archive_strtab)) = Ok () \<and>
   strtab (full archive_strtab) = ''long_name.o/'' @ [NL] \<and>
   loadArchive reader (full archive_strtab)
     = loadArchive_loop reader archive_strtab
         ((full archive_strtab)\<lparr>members := [], symTab := []\<rparr>) 8 False \<and>
   strtab ((full archive_strtab)\<lparr>members := [], symTab := []\<rparr>) = ''long_name.o/'' @ [NL] \<and>
   fst (loadArchive reader stale) = Ok () \<and>
   map path (members (snd (loadArchive reader stale))) = [''long_name.o''] \<and>
   strtab (snd (loadArchive reader stale)) = strtab stale \<and>
   fst (loadArchive reader (stale\<lparr>members := [], symTab := [], strtab := []\<rparr>))
     = Fail NameIndexBeyondStringTable"
  by (simp add: archive_strtab_bytes archive_ref_bytes example_defs model_defs
      cong: let_weak_cong)

section \<open>The bitcode archive detector\<close>

lemma loadSymbolTable_symTab:
  "symTab (snd (loadSymbolTable C a)) = symTab a"
  by (simp add: loadSymbolTable_def Let_def split: option.splits outcome.splits prod.splits)

text \<open>The detector never changes the symbol table.\<close>

lemma isBitcodeArchive_symTab:
  "symTab (snd (isBitcodeArchive C a)) = symTab a"
proof (cases "symTab a = []")
  case False
  then show ?thesis by (simp add: isBitcodeArchive_def)
next
  case True
  obtain r1 a1 where l1: "loadSymbolTable C a = (r1, a1)" by (cases "loadSymbolTable C a")
  have s1: "symTab a1 = []" using loadSymbolTable_symTab [of C a] l1 True by simp
  obtain r2 a2 where l2: "loadArchive C a1 = (r2, a2)" by (cases "loadArchive C a1")
  have s2: "symTab a2 = []" using loadArchive_frame [OF l2] by simp
  show ?thesis
    using True l1 s1 l2 s2
    by (simp add: isBitcodeArchive_def split: outcome.splits option.splits)
qed

text \<open>
  What the detector does when no loader aborts: it never returns a failure; with a
  symbol table that is not empty it answers true and reads and changes nothing; a
  failure of \<^verbatim>\<open>loadSymbolTable\<close>, of \<^verbatim>\<open>loadArchive\<close> or of \<^verbatim>\<open>parseBitcodeFile\<close> on the
  first bitcode member makes the answer false.
\<close>

lemma detector_answers:
  "(\<forall>e. fst (isBitcodeArchive C a) \<noteq> Fail e) \<and>
   (symTab a \<noteq> [] \<longrightarrow> isBitcodeArchive C a = (Ok True, a)) \<and>
   (symTab a = [] \<longrightarrow> fst (loadSymbolTable C a) = Fail e1 \<longrightarrow>
      fst (isBitcodeArchive C a) = Ok False) \<and>
   (symTab a = [] \<longrightarrow> fst (loadSymbolTable C a) = Ok () \<longrightarrow>
      fst (loadArchive C (snd (loadSymbolTable C a))) = Fail e2 \<longrightarrow>
      fst (isBitcodeArchive C a) = Ok False) \<and>
   (symTab a = [] \<longrightarrow> fst (loadSymbolTable C a) = Ok () \<longrightarrow>
      loadArchive C (snd (loadSymbolTable C a)) = (Ok (), a2) \<longrightarrow>
      List.find isBitcode (members a2) = Some I \<longrightarrow> mapfile a2 = Some mem \<longrightarrow>
      \<not> parseBitcodeFile C (bytes_at mem (data I) (nat (Size I))) (FullMemberName a2 I) \<longrightarrow>
      fst (isBitcodeArchive C a) = Ok False) \<and>
   (fst (isBitcodeArchive C a) = Abort \<longleftrightarrow>
      symTab a = [] \<and>
      (fst (loadSymbolTable C a) = Abort \<or>
       fst (loadSymbolTable C a) = Ok () \<and>
       fst (loadArchive C (snd (loadSymbolTable C a))) = Abort))"
proof (cases "symTab a = []")
  case False
  then show ?thesis by (simp add: isBitcodeArchive_def)
next
  case True
  obtain r1 a1 where l1: "loadSymbolTable C a = (r1, a1)" by (cases "loadSymbolTable C a")
  have s1: "symTab a1 = []" using loadSymbolTable_symTab [of C a] l1 True by simp
  obtain r2 a3 where l2: "loadArchive C a1 = (r2, a3)" by (cases "loadArchive C a1")
  have m: "mapfile a3 = mapfile a1" using loadArchive_frame [OF l2] by simp
  have ab: "r2 = Abort" if "mapfile a3 = None"
    using loadArchive_unmapped [of a1 C] that m l2 by simp
  show ?thesis
    using True l1 s1 l2 ab
    by (auto simp: isBitcodeArchive_def split: outcome.splits option.splits)
qed

text \<open>
  The lemma at four inputs: \<open>archive_one\<close> with its symbol table built; a file
  without the archive magic, where \<^verbatim>\<open>loadSymbolTable\<close> fails; \<open>archive_trailing\<close>,
  where \<^verbatim>\<open>loadSymbolTable\<close> succeeds and \<^verbatim>\<open>loadArchive\<close> fails; and \<open>archive_one\<close> with
  a reader that cannot parse its member.
\<close>

lemma detector_answers_examples:
  "symTab (indexed archive_one) \<noteq> [] \<and>
   isBitcodeArchive reader (indexed archive_one) = (Ok True, indexed archive_one) \<and>
   fst (loadSymbolTable reader (opened ''junk'')) = Fail InvalidArchiveSignature \<and>
   fst (isBitcodeArchive reader (opened ''junk'')) = Ok False \<and>
   fst (loadSymbolTable reader (opened archive_trailing)) = Ok () \<and>
   fst (loadArchive reader (snd (loadSymbolTable reader (opened archive_trailing))))
     = Fail UnexpectedEndOfFile \<and>
   fst (isBitcodeArchive reader (opened archive_trailing)) = Ok False \<and>
   List.find isBitcode
     (members (snd (loadArchive reader_noparse
        (snd (loadSymbolTable reader_noparse (opened archive_one)))))) = Some member_one \<and>
   fst (isBitcodeArchive reader_noparse (opened archive_one)) = Ok False"
proof -
  let ?full = "snd (loadArchive reader_noparse
      (snd (loadSymbolTable reader_noparse (opened archive_one))))"
  have 1: "symTab (indexed archive_one) \<noteq> []"
    by (simp add: archive_one_bytes example_defs model_defs
      cong: let_weak_cong)
  have 2: "symTab (opened ''junk'') = []"
    "fst (loadSymbolTable reader (opened ''junk'')) = Fail InvalidArchiveSignature"
    by (simp_all add: model_defs
      cong: let_weak_cong)
  have 3: "symTab (opened archive_trailing) = []"
    "fst (loadSymbolTable reader (opened archive_trailing)) = Ok ()"
    "fst (loadArchive reader (snd (loadSymbolTable reader (opened archive_trailing))))
       = Fail UnexpectedEndOfFile"
    by (simp_all add: archive_one_bytes example_defs model_defs
      cong: let_weak_cong)
  have 4: "symTab (opened archive_one) = []"
    "fst (loadSymbolTable reader_noparse (opened archive_one)) = Ok ()"
    "fst (loadArchive reader_noparse (snd (loadSymbolTable reader_noparse (opened archive_one))))
       = Ok ()"
    "List.find isBitcode (members ?full) = Some member_one"
    "mapfile ?full = Some archive_one"
    "\<not> parseBitcodeFile reader_noparse
         (bytes_at archive_one (data member_one) (nat (Size member_one)))
         (FullMemberName ?full member_one)"
    by (simp_all add: archive_one_bytes example_defs model_defs
      cong: let_weak_cong)
  have 5: "loadArchive reader_noparse (snd (loadSymbolTable reader_noparse (opened archive_one)))
      = (Ok (), ?full)"
    using 4(3) by (simp add: prod_eq_iff)
  have a: "isBitcodeArchive reader (indexed archive_one) = (Ok True, indexed archive_one)"
    using detector_answers [of reader "indexed archive_one"] 1 by blast
  have b: "fst (isBitcodeArchive reader (opened ''junk'')) = Ok False"
    using detector_answers [of reader "opened ''junk''" InvalidArchiveSignature] 2 by blast
  have c: "fst (isBitcodeArchive reader (opened archive_trailing)) = Ok False"
    using detector_answers [of reader "opened archive_trailing" _ UnexpectedEndOfFile] 3
    by blast
  have d: "fst (isBitcodeArchive reader_noparse (opened archive_one)) = Ok False"
    using detector_answers [of reader_noparse "opened archive_one" _ _ ?full member_one
        archive_one] 4(1,2,4,5,6) 5
    by blast
  from 1 2 3 4 a b c d show ?thesis
    by blast
qed


text \<open>
  Claim C8 fails on the code. With an empty symbol table the detector calls
  \<^verbatim>\<open>loadSymbolTable\<close>, which finds the first member and inserts no symbol, so the test
  of the table that follows is false and the answer comes from the full load and
  \<^verbatim>\<open>parseBitcodeFile\<close>. The member of \<open>archive_one\<close> defines \<^verbatim>\<open>f\<close> and \<^verbatim>\<open>g\<close>; with a
  reader that cannot parse it in full the detector answers false, and the symbol table
  is empty afterwards. The comments on lines 491, 492, 497 and 498 say the table has
  been loaded by then.
\<close>

theorem detector_does_not_build_symTab:
  "GetBitcodeSymbols reader_noparse (bytes_at archive_one 68 8) ''lib.a(a.bc)''
     = Inr [''f'', ''g''] \<and>
   fst (isBitcodeArchive reader_noparse (opened archive_one)) = Ok False \<and>
   symTab (snd (isBitcodeArchive reader_noparse (opened archive_one))) = [] \<and>
   symTab (snd (isBitcodeArchive reader (opened archive_one))) = [] \<and>
   fst (isBitcodeArchive reader (opened archive_one)) = Ok True"
  by (simp add: archive_one_bytes example_defs model_defs
      cong: let_weak_cong)

end
